theory Spec2Isabelle
  imports Main "HOL-Library.Char_ord" "HOL-Library.Word"
begin

unbundle bit_operations_syntax

section \<open>Regular expressions as the handlers use them\<close>

text \<open>
  The two validators of \<^verbatim>\<open>handlers\<close> compile a pattern with \<^verbatim>\<open>regexp.MustCompile\<close> and
  call \<^verbatim>\<open>MatchString\<close>. A Go string is a sequence of bytes, here a \<^typ>\<open>string\<close>
  (one \<^typ>\<open>char\<close> per byte). The syntax tree below has the operators of Go's
  \<^verbatim>\<open>regexp/syntax\<close> that the two patterns need. A character class is a list of inclusive
  ranges, compared by code, as Go stores it. Every member of the classes used here is
  ASCII, so a byte of 0x80 or more (part of a longer rune, or invalid) is in no class.
\<close>

type_synonym rune_range = "char \<times> char"

datatype regexp =
    OpNoMatch
  | OpEmptyMatch
  | OpLiteral char
  | OpCharClass "rune_range list"
  | OpConcat regexp regexp
  | OpAlternate regexp regexp
  | OpStar regexp

fun in_class :: "rune_range list \<Rightarrow> char \<Rightarrow> bool" where
  "in_class [] c = False"
| "in_class ((lo, hi) # rs) c = ((lo \<le> c \<and> c \<le> hi) \<or> in_class rs c)"

text \<open>\<^verbatim>\<open>x?\<close>, \<^verbatim>\<open>x+\<close> and the counted repetitions \<^verbatim>\<open>x{n,m}\<close>, \<^verbatim>\<open>x{n,}\<close>, written out
  as the simplifier of \<^verbatim>\<open>regexp/syntax\<close> does: n copies of x, then nested optional
  copies up to m, or a star when there is no upper bound.\<close>

definition OpQuest :: "regexp \<Rightarrow> regexp" where
  "OpQuest r = OpAlternate r OpEmptyMatch"

definition OpPlus :: "regexp \<Rightarrow> regexp" where
  "OpPlus r = OpConcat r (OpStar r)"

fun copies :: "nat \<Rightarrow> regexp \<Rightarrow> regexp" where
  "copies 0 r = OpEmptyMatch"
| "copies (Suc n) r = OpConcat r (copies n r)"

fun at_most :: "nat \<Rightarrow> regexp \<Rightarrow> regexp" where
  "at_most 0 r = OpEmptyMatch"
| "at_most (Suc n) r = OpAlternate (OpConcat r (at_most n r)) OpEmptyMatch"

definition OpRepeat :: "regexp \<Rightarrow> nat \<Rightarrow> nat option \<Rightarrow> regexp" where
  "OpRepeat r lo hi =
     (case hi of
        None \<Rightarrow> OpConcat (copies lo r) (OpStar r)
      | Some m \<Rightarrow> OpConcat (copies lo r) (at_most (m - lo) r))"

subsection \<open>The matcher\<close>

text \<open>Matching by derivatives: \<open>nullable r\<close> says that r matches the empty text,
  \<open>deriv c r\<close> is what remains of r after the byte c.\<close>

fun nullable :: "regexp \<Rightarrow> bool" where
  "nullable OpNoMatch = False"
| "nullable OpEmptyMatch = True"
| "nullable (OpLiteral c) = False"
| "nullable (OpCharClass rs) = False"
| "nullable (OpConcat r s) = (nullable r \<and> nullable s)"
| "nullable (OpAlternate r s) = (nullable r \<or> nullable s)"
| "nullable (OpStar r) = True"

fun deriv :: "char \<Rightarrow> regexp \<Rightarrow> regexp" where
  "deriv c OpNoMatch = OpNoMatch"
| "deriv c OpEmptyMatch = OpNoMatch"
| "deriv c (OpLiteral d) = (if c = d then OpEmptyMatch else OpNoMatch)"
| "deriv c (OpCharClass rs) = (if in_class rs c then OpEmptyMatch else OpNoMatch)"
| "deriv c (OpConcat r s) =
     (if nullable r then OpAlternate (OpConcat (deriv c r) s) (deriv c s)
      else OpConcat (deriv c r) s)"
| "deriv c (OpAlternate r s) = OpAlternate (deriv c r) (deriv c s)"
| "deriv c (OpStar r) = OpConcat (deriv c r) (OpStar r)"

fun derivs :: "string \<Rightarrow> regexp \<Rightarrow> regexp" where
  "derivs [] r = r"
| "derivs (c # w) r = derivs w (deriv c r)"

text \<open>\<^verbatim>\<open>MatchString\<close> on a pattern \<^verbatim>\<open>^body$\<close>. Without the flag \<^verbatim>\<open>m\<close>, \<^verbatim>\<open>^\<close> holds only
  at the start of the text and \<^verbatim>\<open>$\<close> only at its very end (not before a final
  newline), so the search succeeds exactly when the body matches the whole text.\<close>

definition MatchString :: "regexp \<Rightarrow> string \<Rightarrow> bool" where
  "MatchString body s = nullable (derivs s body)"

subsection \<open>The language of a pattern\<close>

inductive_set closure :: "string set \<Rightarrow> string set" for A :: "string set" where
  closure_nil: "[] \<in> closure A"
| closure_app: "u \<in> A \<Longrightarrow> v \<in> closure A \<Longrightarrow> u @ v \<in> closure A"

fun lang :: "regexp \<Rightarrow> string set" where
  "lang OpNoMatch = {}"
| "lang OpEmptyMatch = {[]}"
| "lang (OpLiteral c) = {[c]}"
| "lang (OpCharClass rs) = {[c] | c. in_class rs c}"
| "lang (OpConcat r s) = {u @ v | u v. u \<in> lang r \<and> v \<in> lang s}"
| "lang (OpAlternate r s) = lang r \<union> lang s"
| "lang (OpStar r) = closure (lang r)"

section \<open>Validation\<close>

text \<open>
  \<^verbatim>\<open>func validatePhone(phone string) bool\<close> with the pattern \<^verbatim>\<open>^\+?\d{10,15}$\<close>; the Perl
  class \<^verbatim>\<open>\d\<close> is the ASCII digits in Go.
\<close>

definition perl_d :: "rune_range list" where
  "perl_d = [(CHR ''0'', CHR ''9'')]"

definition phone_re :: regexp where
  "phone_re = OpConcat (OpQuest (OpLiteral CHR ''+'')) (OpRepeat (OpCharClass perl_d) 10 (Some 15))"

definition validatePhone :: "string \<Rightarrow> bool" where
  "validatePhone phone = MatchString phone_re phone"

text \<open>
  \<^verbatim>\<open>func validateEmail(email string) bool\<close> with the pattern
  \<^verbatim>\<open>^[a-zA-Z0-9._%+-]+@[a-zA-Z0-9.-]+\.[a-zA-Z]{2,}$\<close>.
\<close>

definition local_class :: "rune_range list" where
  "local_class =
     [(CHR ''a'', CHR ''z''), (CHR ''A'', CHR ''Z''), (CHR ''0'', CHR ''9''),
      (CHR ''.'', CHR ''.''), (CHR ''_'', CHR ''_''), (CHR ''%'', CHR ''%''),
      (CHR ''+'', CHR ''+''), (CHR ''-'', CHR ''-'')]"

definition domain_class :: "rune_range list" where
  "domain_class =
     [(CHR ''a'', CHR ''z''), (CHR ''A'', CHR ''Z''), (CHR ''0'', CHR ''9''),
      (CHR ''.'', CHR ''.''), (CHR ''-'', CHR ''-'')]"

definition alpha_class :: "rune_range list" where
  "alpha_class = [(CHR ''a'', CHR ''z''), (CHR ''A'', CHR ''Z'')]"

definition email_re :: regexp where
  "email_re =
     OpConcat (OpPlus (OpCharClass local_class))
       (OpConcat (OpLiteral CHR ''@'')
          (OpConcat (OpPlus (OpCharClass domain_class))
             (OpConcat (OpLiteral CHR ''.'') (OpRepeat (OpCharClass alpha_class) 2 None))))"

definition validateEmail :: "string \<Rightarrow> bool" where
  "validateEmail email = MatchString email_re email"


section \<open>The shapes the specification names\<close>

text \<open>
  What the specification says of an accepted phone number and of an accepted e-mail
  address, written directly on the text and without the matcher: an optional leading
  \<^verbatim>\<open>+\<close> followed by 10 to 15 digits; a non-empty local part, \<^verbatim>\<open>@\<close>, a non-empty domain part,
  a dot and a top-level label of two or more letters.
\<close>

definition is_digit :: "char \<Rightarrow> bool" where
  "is_digit c = (CHR ''0'' \<le> c \<and> c \<le> CHR ''9'')"

definition is_alpha :: "char \<Rightarrow> bool" where
  "is_alpha c = ((CHR ''a'' \<le> c \<and> c \<le> CHR ''z'') \<or> (CHR ''A'' \<le> c \<and> c \<le> CHR ''Z''))"

definition phone_shape :: "string \<Rightarrow> bool" where
  "phone_shape s =
     (let ds = (case s of c # r \<Rightarrow> if c = CHR ''+'' then r else s | [] \<Rightarrow> s)
      in 10 \<le> length ds \<and> length ds \<le> 15 \<and> list_all is_digit ds)"

definition local_char :: "char \<Rightarrow> bool" where
  "local_char c = (is_alpha c \<or> is_digit c \<or> c \<in> set ''._%+-'')"

definition domain_char :: "char \<Rightarrow> bool" where
  "domain_char c = (is_alpha c \<or> is_digit c \<or> c \<in> set ''.-'')"

definition email_shape :: "string \<Rightarrow> bool" where
  "email_shape s =
     (\<exists>l d t. s = l @ ''@'' @ d @ ''.'' @ t
        \<and> l \<noteq> [] \<and> list_all local_char l
        \<and> d \<noteq> [] \<and> list_all domain_char d
        \<and> 2 \<le> length t \<and> list_all is_alpha t)"

text \<open>
  The number of characters of a text in UTF-8, as \<^verbatim>\<open>utf8.RuneCountInString\<close> counts
  them on well-formed input: every byte that is not a continuation byte
  (\<^verbatim>\<open>10xxxxxx\<close>) starts one character. \<^verbatim>\<open>encoding/json\<close> only produces well-formed
  strings. Go's \<^verbatim>\<open>len\<close> counts bytes, which is \<^const>\<open>length\<close> here.
\<close>

definition is_continuation :: "char \<Rightarrow> bool" where
  "is_continuation c = (CHR 0x80 \<le> c \<and> c \<le> CHR 0xBF)"

definition RuneCountInString :: "string \<Rightarrow> nat" where
  "RuneCountInString s = length (filter (\<lambda>c. \<not> is_continuation c) s)"

section \<open>Library functions the handlers call\<close>

subsection \<open>\<^verbatim>\<open>strconv.Atoi\<close>\<close>

text \<open>
  \<^verbatim>\<open>Atoi(s)\<close> is \<^verbatim>\<open>ParseInt(s, 10, 0)\<close> with \<^verbatim>\<open>int\<close> of 64 bits (the image is built for
  amd64): an optional sign, then one or more ASCII digits and nothing else; the value
  must fit. \<^verbatim>\<open>ParseUint\<close> reads the digits from the left and stops at the first byte
  that is not a digit (syntax error) or at the first digit that takes the value beyond
  64 bits (range error).
\<close>

datatype NumError = ErrSyntax | ErrRange

definition digit_val :: "char \<Rightarrow> int" where
  "digit_val c = of_char c - of_char CHR ''0''"

fun ParseUint_loop :: "string \<Rightarrow> int \<Rightarrow> NumError + int" where
  "ParseUint_loop [] n = Inr n"
| "ParseUint_loop (c # cs) n =
     (if \<not> is_digit c then Inl ErrSyntax
      else if n * 10 + digit_val c > 2 ^ 64 - 1 then Inl ErrRange
      else ParseUint_loop cs (n * 10 + digit_val c))"

definition ParseUint :: "string \<Rightarrow> NumError + int" where
  "ParseUint s = (if s = [] then Inl ErrSyntax else ParseUint_loop s 0)"

definition Atoi :: "string \<Rightarrow> NumError + int" where
  "Atoi s =
     (if s = [] then Inl ErrSyntax
      else
        let neg = (hd s = CHR ''-'');
            s1 = (if hd s = CHR ''+'' \<or> hd s = CHR ''-'' then tl s else s)
        in case ParseUint s1 of
             Inl e \<Rightarrow> Inl e
           | Inr un \<Rightarrow>
               if \<not> neg \<and> un \<ge> 2 ^ 63 then Inl ErrRange
               else if neg \<and> un > 2 ^ 63 then Inl ErrRange
               else Inr (if neg then - un else un))"

subsection \<open>\<^verbatim>\<open>uuid.New().String()\<close>\<close>

text \<open>
  \<^verbatim>\<open>uuid.New\<close> of \<^verbatim>\<open>github.com/google/uuid\<close> fills a \<^verbatim>\<open>[16]byte\<close> from the random
  reader and stamps version 4 and the variant into bytes 6 and 8; \<^verbatim>\<open>String\<close> writes
  the 16 bytes as lower-case hexadecimal digits in groups of 8-4-4-4-12 separated by
  dashes. The 16 random bytes are the argument \<open>rnd\<close>.
\<close>

type_synonym byte = "8 word"

definition NewRandom :: "byte list \<Rightarrow> byte list" where
  "NewRandom rnd =
     (let u = rnd;
          u = u[6 := (u ! 6 AND 0x0f) OR 0x40];
          u = u[8 := (u ! 8 AND 0x3f) OR 0x80]
      in u)"

definition hextable :: string where
  "hextable = ''0123456789abcdef''"

fun hex_Encode :: "byte list \<Rightarrow> string" where
  "hex_Encode [] = []"
| "hex_Encode (b # bs) =
     hextable ! unat (drop_bit 4 b) # hextable ! unat (b AND 0x0f) # hex_Encode bs"

definition uuid_String :: "byte list \<Rightarrow> string" where
  "uuid_String u =
     hex_Encode (take 4 u) @ ''-'' @ hex_Encode (take 2 (drop 4 u)) @ ''-'' @
     hex_Encode (take 2 (drop 6 u)) @ ''-'' @ hex_Encode (take 2 (drop 8 u)) @ ''-'' @
     hex_Encode (drop 10 u)"

section \<open>The data model\<close>

text \<open>\<^verbatim>\<open>type Client struct\<close>, with its JSON tags in \<open>Encode_Client\<close>.\<close>

record Client =
  ID :: string
  Name :: string
  Phone :: string
  Email :: string
  Comment :: string

datatype json = JNull | JString string | JArray "json list" | JObject "(string \<times> json) list"

text \<open>\<^verbatim>\<open>json.NewEncoder(w).Encode(client)\<close>: the fields in declaration order;
  \<^verbatim>\<open>comment\<close> has \<^verbatim>\<open>omitempty\<close> and is left out when it is the empty string.\<close>

definition Encode_Client :: "Client \<Rightarrow> json" where
  "Encode_Client c =
     JObject ([(''id'', JString (ID c)), (''name'', JString (Name c)),
               (''phone'', JString (Phone c)), (''email'', JString (Email c))]
              @ (if Comment c = [] then [] else [(''comment'', JString (Comment c))]))"

text \<open>A Go slice is \<open>None\<close> when it is nil. \<^verbatim>\<open>encoding/json\<close> writes a nil slice as
  \<^verbatim>\<open>null\<close> and any other slice, the empty one too, as an array.\<close>

type_synonym 'a slice = "'a list option"

definition append_slice :: "'a slice \<Rightarrow> 'a \<Rightarrow> 'a slice" where
  "append_slice xs x = (case xs of None \<Rightarrow> Some [x] | Some ys \<Rightarrow> Some (ys @ [x]))"

definition Encode_Clients :: "Client slice \<Rightarrow> json" where
  "Encode_Clients cs = (case cs of None \<Rightarrow> JNull | Some xs \<Rightarrow> JArray (map Encode_Client xs))"

definition json_field :: "string \<Rightarrow> json \<Rightarrow> json option" where
  "json_field k j = (case j of JObject kvs \<Rightarrow> map_of kvs k | _ \<Rightarrow> None)"

section \<open>Requests and responses\<close>

text \<open>
  What a handler reads of \<^verbatim>\<open>*http.Request\<close> and \<^verbatim>\<open>httprouter.Params\<close>:
  \<^item> \<open>Decoded\<close>: the outcome of \<^verbatim>\<open>json.NewDecoder(r.Body).Decode(&client)\<close>, \<open>None\<close> when
    it returns an error, otherwise the struct it filled (a field the body does not
    mention keeps the empty string);
  \<^item> \<open>Params\<close>: the path parameters, in order;
  \<^item> \<open>URLQuery\<close>: \<^verbatim>\<open>r.URL.Query()\<close>, each key with the list of its values.
\<close>

record request =
  Decoded :: "Client option"
  Params :: "(string \<times> string) list"
  URLQuery :: "(string \<times> string list) list"

definition ByName :: "(string \<times> string) list \<Rightarrow> string \<Rightarrow> string" where
  "ByName ps name = (case map_of ps name of None \<Rightarrow> [] | Some v \<Rightarrow> v)"

definition query_Get :: "request \<Rightarrow> string \<Rightarrow> string" where
  "query_Get r key =
     (case map_of (URLQuery r) key of None \<Rightarrow> [] | Some [] \<Rightarrow> [] | Some (v # vs) \<Rightarrow> v)"

datatype payload = Text string | Json json

record response =
  StatusCode :: nat
  Written :: payload

abbreviation StatusOK :: nat where "StatusOK \<equiv> 200"
abbreviation StatusCreated :: nat where "StatusCreated \<equiv> 201"
abbreviation StatusBadRequest :: nat where "StatusBadRequest \<equiv> 400"
abbreviation StatusNotFound :: nat where "StatusNotFound \<equiv> 404"
abbreviation StatusInternalServerError :: nat where "StatusInternalServerError \<equiv> 500"

text \<open>\<^verbatim>\<open>http.Error(w, msg, code)\<close> writes the status and the message followed by a newline.\<close>

definition http_Error :: "string \<Rightarrow> nat \<Rightarrow> response" where
  "http_Error msg code = \<lparr>StatusCode = code, Written = Text (msg @ [CHR 0x0A])\<rparr>"

section \<open>The store\<close>

text \<open>
  The five statements the handlers send, with their arguments in the order of the
  placeholders. The store itself (\<^verbatim>\<open>*pgxpool.Pool\<close> and the database behind it) is a
  parameter: any functions from a statement and a store state to an outcome and the next
  state. A handler state pairs the store state with the list of statements issued so far.
\<close>

datatype sql =
    INSERT_client string string string string string
  | SELECT_client_by_id string
  | SELECT_clients int int
  | UPDATE_client string string string string string
  | DELETE_client string

datatype pgx_error = ErrNoRows | ErrStore

record 's Pool =
  Exec :: "sql \<Rightarrow> 's \<Rightarrow> (pgx_error + nat) \<times> 's"
  QueryRow :: "sql \<Rightarrow> 's \<Rightarrow> (pgx_error + Client) \<times> 's"
  Query :: "sql \<Rightarrow> 's \<Rightarrow> (pgx_error + (pgx_error + Client) list) \<times> 's"

record 's db =
  store :: 's
  issued :: "sql list"

definition db_Exec :: "'s Pool \<Rightarrow> sql \<Rightarrow> 's db \<Rightarrow> (pgx_error + nat) \<times> 's db" where
  "db_Exec pool q d =
     (let (res, s') = Exec pool q (store d) in (res, \<lparr>store = s', issued = issued d @ [q]\<rparr>))"

definition db_QueryRow :: "'s Pool \<Rightarrow> sql \<Rightarrow> 's db \<Rightarrow> (pgx_error + Client) \<times> 's db" where
  "db_QueryRow pool q d =
     (let (res, s') = QueryRow pool q (store d) in (res, \<lparr>store = s', issued = issued d @ [q]\<rparr>))"

definition db_Query ::
  "'s Pool \<Rightarrow> sql \<Rightarrow> 's db \<Rightarrow> (pgx_error + (pgx_error + Client) list) \<times> 's db" where
  "db_Query pool q d =
     (let (res, s') = Query pool q (store d) in (res, \<lparr>store = s', issued = issued d @ [q]\<rparr>))"

text \<open>A store held in memory, to run the handlers on: the table is a list of rows, an
  insert fails on an id that is already there, a page is cut with \<open>take\<close> and \<open>drop\<close>.\<close>

definition table_Exec :: "sql \<Rightarrow> Client list \<Rightarrow> (pgx_error + nat) \<times> Client list" where
  "table_Exec q t =
     (case q of
        INSERT_client i n p e c \<Rightarrow>
          if i \<in> set (map ID t) then (Inl ErrStore, t)
          else (Inr 1, t @ [\<lparr>ID = i, Name = n, Phone = p, Email = e, Comment = c\<rparr>])
      | UPDATE_client n p e c i \<Rightarrow>
          (Inr (length (filter (\<lambda>r. ID r = i) t)),
           map (\<lambda>r. if ID r = i then r\<lparr>Name := n, Phone := p, Email := e, Comment := c\<rparr> else r) t)
      | DELETE_client i \<Rightarrow>
          (Inr (length (filter (\<lambda>r. ID r = i) t)), filter (\<lambda>r. ID r \<noteq> i) t)
      | _ \<Rightarrow> (Inl ErrStore, t))"

definition table_QueryRow :: "sql \<Rightarrow> Client list \<Rightarrow> (pgx_error + Client) \<times> Client list" where
  "table_QueryRow q t =
     (case q of
        SELECT_client_by_id i \<Rightarrow>
          (case filter (\<lambda>r. ID r = i) t of [] \<Rightarrow> (Inl ErrNoRows, t) | r # _ \<Rightarrow> (Inr r, t))
      | _ \<Rightarrow> (Inl ErrStore, t))"

definition table_Query ::
  "sql \<Rightarrow> Client list \<Rightarrow> (pgx_error + (pgx_error + Client) list) \<times> Client list" where
  "table_Query q t =
     (case q of
        SELECT_clients l off \<Rightarrow> (Inr (map Inr (take (nat l) (drop (nat off) t))), t)
      | _ \<Rightarrow> (Inl ErrStore, t))"

definition table_pool :: "Client list Pool" where
  "table_pool = \<lparr>Exec = table_Exec, QueryRow = table_QueryRow, Query = table_Query\<rparr>"

section \<open>The handlers\<close>

text \<open>
  Each handler takes the pool, the request and the handler state, and returns the
  response with the state after it. Logging is left out. \<open>CreateClient\<close> also takes the
  16 random bytes that \<^verbatim>\<open>uuid.New\<close> would read.
\<close>

definition CreateClient :: "'s Pool \<Rightarrow> byte list \<Rightarrow> request \<Rightarrow> 's db \<Rightarrow> response \<times> 's db" where
  "CreateClient pool rnd r d =
     (case Decoded r of
        None \<Rightarrow> (http_Error ''Invalid request body'' StatusBadRequest, d)
      | Some client \<Rightarrow>
          if \<not> validatePhone (Phone client) \<or> \<not> validateEmail (Email client)
          then (http_Error ''Invalid phone or email format'' StatusBadRequest, d)
          else if length (Comment client) > 255
          then (http_Error ''Comment is too long'' StatusBadRequest, d)
          else
            let client = client\<lparr>ID := uuid_String (NewRandom rnd)\<rparr>;
                (res, d') = db_Exec pool
                   (INSERT_client (ID client) (Name client) (Phone client) (Email client)
                      (Comment client)) d
            in case res of
                 Inl err \<Rightarrow> (http_Error ''Internal server error'' StatusInternalServerError, d')
               | Inr tag \<Rightarrow>
                   (\<lparr>StatusCode = StatusCreated, Written = Json (Encode_Client client)\<rparr>, d'))"

definition GetClientByID :: "'s Pool \<Rightarrow> request \<Rightarrow> 's db \<Rightarrow> response \<times> 's db" where
  "GetClientByID pool r d =
     (let id = ByName (Params r) ''id'';
          (res, d') = db_QueryRow pool (SELECT_client_by_id id) d
      in case res of
           Inl err \<Rightarrow>
             if err = ErrNoRows then (http_Error ''Client not found'' StatusNotFound, d')
             else (http_Error ''Internal server error'' StatusInternalServerError, d')
         | Inr client \<Rightarrow> (\<lparr>StatusCode = StatusOK, Written = Json (Encode_Client client)\<rparr>, d'))"

text \<open>The loop \<^verbatim>\<open>for rows.Next() { ... rows.Scan ... append }\<close>: a row that does not scan
  ends the handler with an error.\<close>

fun scan_rows :: "(pgx_error + Client) list \<Rightarrow> Client slice \<Rightarrow> pgx_error + Client slice" where
  "scan_rows [] clients = Inr clients"
| "scan_rows (row # rows) clients =
     (case row of
        Inl err \<Rightarrow> Inl err
      | Inr client \<Rightarrow> scan_rows rows (append_slice clients client))"

text \<open>\<open>fetch_clients\<close> is \<open>GetClients\<close> from the query on, once \<open>limit\<close> and \<open>offset\<close>
  are settled.\<close>

definition fetch_clients :: "'s Pool \<Rightarrow> int \<Rightarrow> int \<Rightarrow> 's db \<Rightarrow> response \<times> 's db" where
  "fetch_clients pool limit offset d =
     (let (res, d') = db_Query pool (SELECT_clients limit offset) d
      in case res of
           Inl err \<Rightarrow> (http_Error ''Internal server error'' StatusInternalServerError, d')
         | Inr rows \<Rightarrow>
             (case scan_rows rows (Some []) of
                Inl err \<Rightarrow> (http_Error ''Internal server error'' StatusInternalServerError, d')
              | Inr clients \<Rightarrow>
                  (\<lparr>StatusCode = StatusOK, Written = Json (Encode_Clients clients)\<rparr>, d')))"

definition GetClients :: "'s Pool \<Rightarrow> request \<Rightarrow> 's db \<Rightarrow> response \<times> 's db" where
  "GetClients pool r d =
     (let limit = 10; offset = 0; l = query_Get r ''limit''; ofs = query_Get r ''offset'' in
      case (if l \<noteq> [] then
              (case Atoi l of
                 Inl err \<Rightarrow> None
               | Inr val \<Rightarrow> if val < 0 then None else Some val)
            else Some limit) of
        None \<Rightarrow> (http_Error ''Invalid limit value'' StatusBadRequest, d)
      | Some limit \<Rightarrow>
          (case (if ofs \<noteq> [] then
                   (case Atoi ofs of
                      Inl err \<Rightarrow> None
                    | Inr val \<Rightarrow> if val < 0 then None else Some val)
                 else Some offset) of
             None \<Rightarrow> (http_Error ''Invalid offset value'' StatusBadRequest, d)
           | Some offset \<Rightarrow> fetch_clients pool limit offset d))"

definition UpdateClient :: "'s Pool \<Rightarrow> request \<Rightarrow> 's db \<Rightarrow> response \<times> 's db" where
  "UpdateClient pool r d =
     (let id = ByName (Params r) ''id'' in
      case Decoded r of
        None \<Rightarrow> (http_Error ''Invalid request body'' StatusBadRequest, d)
      | Some client \<Rightarrow>
          if \<not> validateEmail (Email client)
          then (http_Error ''Invalid email format'' StatusBadRequest, d)
          else if \<not> validatePhone (Phone client)
          then (http_Error ''Invalid phone format'' StatusBadRequest, d)
          else if length (Comment client) > 255
          then (http_Error ''Comment is too long'' StatusBadRequest, d)
          else
            let (res, d') = db_Exec pool
                   (UPDATE_client (Name client) (Phone client) (Email client) (Comment client) id) d
            in case res of
                 Inl err \<Rightarrow> (http_Error ''Internal server error'' StatusInternalServerError, d')
               | Inr rowsAffected \<Rightarrow>
                   if rowsAffected = 0 then (http_Error ''Client not found'' StatusNotFound, d')
                   else (\<lparr>StatusCode = StatusOK, Written = Json (Encode_Client client)\<rparr>, d'))"

definition DeleteClient :: "'s Pool \<Rightarrow> request \<Rightarrow> 's db \<Rightarrow> response \<times> 's db" where
  "DeleteClient pool r d =
     (let id = ByName (Params r) ''id'';
          (res, d') = db_Exec pool (DELETE_client id) d
      in case res of
           Inl err \<Rightarrow> (http_Error ''Internal server error'' StatusInternalServerError, d')
         | Inr rowsAffected \<Rightarrow>
             if rowsAffected = 0 then (http_Error ''Client not found'' StatusNotFound, d')
             else (\<lparr>StatusCode = StatusOK, Written = Text ''Client deleted''\<rparr>, d'))"

section \<open>Notions the claims about the list parameters use\<close>

text \<open>
  A parameter value is rejected when \<^verbatim>\<open>strconv.Atoi\<close> returns an error for it or reads a
  negative number: the test \<^verbatim>\<open>err != nil || val < 0\<close> of \<open>GetClients\<close>. \<open>param_value\<close> is
  the number the handler goes on with for a value it does not reject, and \<open>without\<close>
  removes a key from the query.
\<close>

definition rejected_value :: "string \<Rightarrow> bool" where
  "rejected_value v = (case Atoi v of Inl err \<Rightarrow> True | Inr val \<Rightarrow> val < 0)"

definition param_value :: "int \<Rightarrow> string \<Rightarrow> int" where
  "param_value dflt v = (if v = [] then dflt else case Atoi v of Inl err \<Rightarrow> dflt | Inr val \<Rightarrow> val)"

definition without :: "string \<Rightarrow> (string \<times> string list) list \<Rightarrow> (string \<times> string list) list" where
  "without key q = filter (\<lambda>kv. fst kv \<noteq> key) q"

section \<open>Notions the claim about the generated id uses\<close>

text \<open>
  The texts that \<^verbatim>\<open>uuid.New().String()\<close> can return: 36 characters, lower-case
  hexadecimal digits in groups of 8-4-4-4-12 separated by dashes, with \<^verbatim>\<open>4\<close> as the first
  digit of the third group (the version) and \<^verbatim>\<open>8\<close>, \<^verbatim>\<open>9\<close>, \<^verbatim>\<open>a\<close> or \<^verbatim>\<open>b\<close> as the first digit of
  the fourth (the variant). \<open>text_bytes\<close> reads the 16 bytes back from such a text, two
  digits for a byte.
\<close>

definition is_hex :: "char \<Rightarrow> bool" where
  "is_hex c = (c \<in> set hextable)"

definition is_v4_text :: "string \<Rightarrow> bool" where
  "is_v4_text s =
     (length s = 36
      \<and> list_all is_hex (take 8 s) \<and> s ! 8 = CHR ''-''
      \<and> list_all is_hex (take 4 (drop 9 s)) \<and> s ! 13 = CHR ''-''
      \<and> s ! 14 = CHR ''4'' \<and> list_all is_hex (take 3 (drop 15 s)) \<and> s ! 18 = CHR ''-''
      \<and> s ! 19 \<in> set ''89ab'' \<and> list_all is_hex (take 3 (drop 20 s)) \<and> s ! 23 = CHR ''-''
      \<and> list_all is_hex (drop 24 s))"

definition unhex :: "char \<Rightarrow> nat" where
  "unhex c = length (takeWhile (\<lambda>x. x \<noteq> c) hextable)"

definition xtob :: "char \<Rightarrow> char \<Rightarrow> byte" where
  "xtob h l = of_nat (unhex h * 16 + unhex l)"

definition text_bytes :: "string \<Rightarrow> byte list" where
  "text_bytes s =
     map (\<lambda>i. xtob (s ! i) (s ! Suc i)) [0, 2, 4, 6, 9, 11, 14, 16, 19, 21, 24, 26, 28, 30, 32, 34]"

section \<open>Correctness of the matcher\<close>

lemma nullable_lang: "nullable r \<longleftrightarrow> [] \<in> lang r"
  by (induction r) (auto intro: closure_nil)

lemma closure_cons_split:
  assumes "x \<in> closure A" and "x = c # w"
  shows "\<exists>u v. w = u @ v \<and> c # u \<in> A \<and> v \<in> closure A"
  using assms
proof (induction arbitrary: w rule: closure.induct)
  case closure_nil
  then show ?case by simp
next
  case (closure_app u v)
  show ?case
  proof (cases u)
    case Nil
    with closure_app show ?thesis by simp
  next
    case (Cons d u')
    with closure_app.prems have "d = c" and "w = u' @ v" by simp_all
    with Cons closure_app.hyps show ?thesis by blast
  qed
qed

lemma closure_cons:
  "c # w \<in> closure A \<longleftrightarrow> (\<exists>u v. w = u @ v \<and> c # u \<in> A \<and> v \<in> closure A)"
proof
  assume "c # w \<in> closure A"
  then show "\<exists>u v. w = u @ v \<and> c # u \<in> A \<and> v \<in> closure A"
    by (rule closure_cons_split) simp
next
  assume "\<exists>u v. w = u @ v \<and> c # u \<in> A \<and> v \<in> closure A"
  then obtain u v where "w = u @ v" "c # u \<in> A" "v \<in> closure A" by blast
  then show "c # w \<in> closure A"
    using closure_app [of "c # u" A v] by simp
qed

lemma lang_ConcatI: "u \<in> lang r \<Longrightarrow> v \<in> lang s \<Longrightarrow> u @ v \<in> lang (OpConcat r s)"
  by auto

lemma lang_ConcatE:
  assumes "w \<in> lang (OpConcat r s)"
  obtains u v where "w = u @ v" "u \<in> lang r" "v \<in> lang s"
  using assms by auto

lemma deriv_lang: "w \<in> lang (deriv c r) \<longleftrightarrow> c # w \<in> lang r"
proof (induction r arbitrary: w)
  case OpNoMatch
  show ?case by simp
next
  case OpEmptyMatch
  show ?case by simp
next
  case (OpLiteral d)
  show ?case by auto
next
  case (OpCharClass rs)
  show ?case by auto
next
  case (OpConcat r s)
  show ?case
  proof
    assume asm: "w \<in> lang (deriv c (OpConcat r s))"
    have "(\<exists>u v. w = u @ v \<and> u \<in> lang (deriv c r) \<and> v \<in> lang s)
        \<or> (nullable r \<and> w \<in> lang (deriv c s))"
    proof (cases "nullable r")
      case True
      with asm have "w \<in> lang (OpConcat (deriv c r) s) \<or> w \<in> lang (deriv c s)" by simp
      with True show ?thesis by (elim disjE lang_ConcatE) blast+
    next
      case False
      with asm have "w \<in> lang (OpConcat (deriv c r) s)" by simp
      then show ?thesis by (elim lang_ConcatE) blast
    qed
    then show "c # w \<in> lang (OpConcat r s)"
    proof (elim disjE exE conjE)
      fix u v
      assume "w = u @ v" "u \<in> lang (deriv c r)" "v \<in> lang s"
      then have "(c # u) @ v \<in> lang (OpConcat r s)"
        using OpConcat.IH(1) [of u] by (intro lang_ConcatI) simp_all
      with \<open>w = u @ v\<close> show ?thesis by simp
    next
      assume "nullable r" "w \<in> lang (deriv c s)"
      then have "[] @ (c # w) \<in> lang (OpConcat r s)"
        using OpConcat.IH(2) [of w] by (intro lang_ConcatI) (simp_all add: nullable_lang)
      then show ?thesis by simp
    qed
  next
    assume "c # w \<in> lang (OpConcat r s)"
    then obtain u v where uv: "c # w = u @ v" "u \<in> lang r" "v \<in> lang s"
      by (rule lang_ConcatE)
    show "w \<in> lang (deriv c (OpConcat r s))"
    proof (cases u)
      case Nil
      with uv have "nullable r" "w \<in> lang (deriv c s)"
        using OpConcat.IH(2) [of w] by (simp_all add: nullable_lang)
      then show ?thesis by simp
    next
      case (Cons d u')
      with uv have "u' \<in> lang (deriv c r)" "w = u' @ v"
        using OpConcat.IH(1) [of u'] by simp_all
      with uv(3) have "w \<in> lang (OpConcat (deriv c r) s)"
        using lang_ConcatI [of u' "deriv c r" v s] by simp
      then show ?thesis by simp
    qed
  qed
next
  case (OpAlternate r s)
  then show ?case by simp
next
  case (OpStar r)
  have "w \<in> lang (deriv c (OpStar r)) \<longleftrightarrow>
        (\<exists>u v. w = u @ v \<and> u \<in> lang (deriv c r) \<and> v \<in> closure (lang r))"
    by auto
  also have "\<dots> \<longleftrightarrow> (\<exists>u v. w = u @ v \<and> c # u \<in> lang r \<and> v \<in> closure (lang r))"
    using OpStar.IH by simp
  also have "\<dots> \<longleftrightarrow> c # w \<in> lang (OpStar r)"
    by (simp add: closure_cons)
  finally show ?case .
qed

lemma derivs_lang: "v \<in> lang (derivs w r) \<longleftrightarrow> w @ v \<in> lang r"
  by (induction w arbitrary: r) (simp_all add: deriv_lang)

lemma MatchString_lang: "MatchString r s \<longleftrightarrow> s \<in> lang r"
  using derivs_lang [of "[]" s r] by (simp add: MatchString_def nullable_lang)


section \<open>The language of the two patterns\<close>

lemma lang_Concat_iff:
  "w \<in> lang (OpConcat r s) \<longleftrightarrow> (\<exists>u v. w = u @ v \<and> u \<in> lang r \<and> v \<in> lang s)"
  by auto

lemma lang_class_cons:
  "w \<in> lang (OpConcat (OpCharClass rs) r) \<longleftrightarrow> (\<exists>c v. w = c # v \<and> in_class rs c \<and> v \<in> lang r)"
proof
  assume "w \<in> lang (OpConcat (OpCharClass rs) r)"
  then show "\<exists>c v. w = c # v \<and> in_class rs c \<and> v \<in> lang r" by auto
next
  assume "\<exists>c v. w = c # v \<and> in_class rs c \<and> v \<in> lang r"
  then obtain c v where "w = [c] @ v" "[c] \<in> lang (OpCharClass rs)" "v \<in> lang r" by auto
  then show "w \<in> lang (OpConcat (OpCharClass rs) r)"
    using lang_ConcatI by blast
qed

lemma lang_copies_class:
  "w \<in> lang (copies n (OpCharClass rs)) \<longleftrightarrow> length w = n \<and> list_all (in_class rs) w"
proof (induction n arbitrary: w)
  case 0
  show ?case by auto
next
  case (Suc n)
  show ?case
    by (cases w) (auto simp add: lang_class_cons Suc.IH simp del: lang.simps)
qed

lemma lang_at_most_class:
  "w \<in> lang (at_most n (OpCharClass rs)) \<longleftrightarrow> length w \<le> n \<and> list_all (in_class rs) w"
proof (induction n arbitrary: w)
  case 0
  show ?case by auto
next
  case (Suc n)
  have "w \<in> lang (at_most (Suc n) (OpCharClass rs)) \<longleftrightarrow>
        w \<in> lang (OpConcat (OpCharClass rs) (at_most n (OpCharClass rs))) \<or> w = []"
    by auto
  then show ?case
    by (cases w) (auto simp add: lang_class_cons Suc.IH simp del: lang.simps)
qed

lemma closure_class:
  "w \<in> closure (lang (OpCharClass rs)) \<longleftrightarrow> list_all (in_class rs) w"
proof (induction w)
  case Nil
  show ?case by (simp add: closure_nil)
next
  case (Cons c w)
  have "c # w \<in> closure (lang (OpCharClass rs)) \<longleftrightarrow>
        (\<exists>u v. w = u @ v \<and> c # u \<in> lang (OpCharClass rs) \<and> v \<in> closure (lang (OpCharClass rs)))"
    by (rule closure_cons)
  also have "\<dots> \<longleftrightarrow> in_class rs c \<and> w \<in> closure (lang (OpCharClass rs))"
    by auto
  finally show ?case by (simp add: Cons.IH del: lang.simps)
qed

lemma lang_repeat_bounded:
  "w \<in> lang (OpRepeat (OpCharClass rs) lo (Some hi)) \<longleftrightarrow>
     lo \<le> length w \<and> length w \<le> lo + (hi - lo) \<and> list_all (in_class rs) w"
proof -
  have "w \<in> lang (OpRepeat (OpCharClass rs) lo (Some hi)) \<longleftrightarrow>
        (\<exists>u v. w = u @ v \<and> u \<in> lang (copies lo (OpCharClass rs))
                \<and> v \<in> lang (at_most (hi - lo) (OpCharClass rs)))"
    by (simp add: OpRepeat_def)
  also have "\<dots> \<longleftrightarrow> (\<exists>u v. w = u @ v \<and> length u = lo \<and> list_all (in_class rs) u
                \<and> length v \<le> hi - lo \<and> list_all (in_class rs) v)"
    by (simp only: lang_copies_class lang_at_most_class conj_assoc)
  also have "\<dots> \<longleftrightarrow> lo \<le> length w \<and> length w \<le> lo + (hi - lo) \<and> list_all (in_class rs) w"
  proof
    assume "\<exists>u v. w = u @ v \<and> length u = lo \<and> list_all (in_class rs) u
                \<and> length v \<le> hi - lo \<and> list_all (in_class rs) v"
    then show "lo \<le> length w \<and> length w \<le> lo + (hi - lo) \<and> list_all (in_class rs) w"
      by auto
  next
    assume r: "lo \<le> length w \<and> length w \<le> lo + (hi - lo) \<and> list_all (in_class rs) w"
    then have "w = take lo w @ drop lo w \<and> length (take lo w) = lo
        \<and> list_all (in_class rs) (take lo w) \<and> length (drop lo w) \<le> hi - lo
        \<and> list_all (in_class rs) (drop lo w)"
      by (auto simp: list_all_iff dest: in_set_takeD in_set_dropD)
    then show "\<exists>u v. w = u @ v \<and> length u = lo \<and> list_all (in_class rs) u
                \<and> length v \<le> hi - lo \<and> list_all (in_class rs) v"
      by blast
  qed
  finally show ?thesis .
qed

lemma lang_repeat_unbounded:
  "w \<in> lang (OpRepeat (OpCharClass rs) lo None) \<longleftrightarrow>
     lo \<le> length w \<and> list_all (in_class rs) w"
proof -
  have "w \<in> lang (OpRepeat (OpCharClass rs) lo None) \<longleftrightarrow>
        (\<exists>u v. w = u @ v \<and> u \<in> lang (copies lo (OpCharClass rs))
                \<and> v \<in> closure (lang (OpCharClass rs)))"
    by (simp add: OpRepeat_def)
  also have "\<dots> \<longleftrightarrow> (\<exists>u v. w = u @ v \<and> length u = lo \<and> list_all (in_class rs) u
                \<and> list_all (in_class rs) v)"
    by (simp only: lang_copies_class closure_class conj_assoc)
  also have "\<dots> \<longleftrightarrow> lo \<le> length w \<and> list_all (in_class rs) w"
  proof
    assume "\<exists>u v. w = u @ v \<and> length u = lo \<and> list_all (in_class rs) u
                \<and> list_all (in_class rs) v"
    then show "lo \<le> length w \<and> list_all (in_class rs) w"
      by auto
  next
    assume r: "lo \<le> length w \<and> list_all (in_class rs) w"
    then have "w = take lo w @ drop lo w \<and> length (take lo w) = lo
        \<and> list_all (in_class rs) (take lo w) \<and> list_all (in_class rs) (drop lo w)"
      by (auto simp: list_all_iff dest: in_set_takeD in_set_dropD)
    then show "\<exists>u v. w = u @ v \<and> length u = lo \<and> list_all (in_class rs) u
                \<and> list_all (in_class rs) v"
      by blast
  qed
  finally show ?thesis .
qed

lemma lang_plus_class:
  "w \<in> lang (OpPlus (OpCharClass rs)) \<longleftrightarrow> w \<noteq> [] \<and> list_all (in_class rs) w"
proof -
  have "w \<in> lang (OpPlus (OpCharClass rs)) \<longleftrightarrow>
        (\<exists>c v. w = c # v \<and> in_class rs c \<and> v \<in> closure (lang (OpCharClass rs)))"
    unfolding OpPlus_def lang_class_cons by simp
  then show ?thesis
    by (cases w) (simp_all add: closure_class del: lang.simps)
qed

lemma in_perl_d: "in_class perl_d = is_digit"
  by (rule ext) (simp add: perl_d_def is_digit_def)

lemma validatePhone_lang:
  "validatePhone s \<longleftrightarrow> phone_shape s"
proof -
  let ?ds = "OpRepeat (OpCharClass perl_d) 10 (Some 15)"
  have D: "\<And>w. w \<in> lang ?ds \<longleftrightarrow> 10 \<le> length w \<and> length w \<le> 15 \<and> list_all is_digit w"
    by (simp add: lang_repeat_bounded in_perl_d)
  have Q: "\<And>u. u \<in> lang (OpQuest (OpLiteral CHR ''+'')) \<longleftrightarrow> u = ''+'' \<or> u = []"
    by (auto simp: OpQuest_def)
  have "validatePhone s \<longleftrightarrow>
        (\<exists>u v. s = u @ v \<and> u \<in> lang (OpQuest (OpLiteral CHR ''+'')) \<and> v \<in> lang ?ds)"
    by (simp only: validatePhone_def MatchString_lang phone_re_def lang_Concat_iff)
  also have "\<dots> \<longleftrightarrow> (s \<in> lang ?ds \<or> (\<exists>v. s = CHR ''+'' # v \<and> v \<in> lang ?ds))"
  proof -
    have "(\<exists>u v. s = u @ v \<and> (u = ''+'' \<or> u = []) \<and> v \<in> lang ?ds) \<longleftrightarrow>
          (\<exists>v. s = [] @ v \<and> v \<in> lang ?ds) \<or> (\<exists>v. s = ''+'' @ v \<and> v \<in> lang ?ds)"
      by blast
    then show ?thesis unfolding Q by simp
  qed
  also have "\<dots> \<longleftrightarrow> phone_shape s"
  proof (cases s)
    case Nil
    then show ?thesis by (simp add: D phone_shape_def)
  next
    case (Cons c r)
    show ?thesis
    proof (cases "c = CHR ''+''")
      case True
      have "\<not> is_digit CHR ''+''" by (simp add: is_digit_def)
      with True Cons show ?thesis by (simp add: D phone_shape_def)
    next
      case False
      with Cons show ?thesis by (simp add: D phone_shape_def)
    qed
  qed
  finally show ?thesis .
qed

lemma single_range: "(a \<le> c \<and> c \<le> a) \<longleftrightarrow> c = a" for a c :: char
  by auto

lemma in_alpha_class: "in_class alpha_class = is_alpha"
  by (rule ext) (simp only: alpha_class_def is_alpha_def in_class.simps simp_thms)

lemma in_local_class: "in_class local_class = local_char"
  by (rule ext)
     (simp only: local_class_def local_char_def is_alpha_def is_digit_def in_class.simps single_range set_simps insert_iff empty_iff simp_thms disj_assoc)

lemma in_domain_class: "in_class domain_class = domain_char"
  by (rule ext)
     (simp only: domain_class_def domain_char_def is_alpha_def is_digit_def in_class.simps single_range set_simps insert_iff empty_iff simp_thms disj_assoc)

lemma lang_literal_cons:
  "w \<in> lang (OpConcat (OpLiteral a) r) \<longleftrightarrow> (\<exists>v. w = [a] @ v \<and> v \<in> lang r)"
  by (simp only: lang_Concat_iff) auto

lemma validateEmail_shape: "validateEmail s \<longleftrightarrow> email_shape s"
proof -
  have "validateEmail s \<longleftrightarrow>
    (\<exists>l r1. s = l @ r1 \<and> (l \<noteq> [] \<and> list_all local_char l) \<and>
      (\<exists>r2. r1 = ''@'' @ r2 \<and>
        (\<exists>d r3. r2 = d @ r3 \<and> (d \<noteq> [] \<and> list_all domain_char d) \<and>
          (\<exists>t. r3 = ''.'' @ t \<and> (2 \<le> length t \<and> list_all is_alpha t)))))"
    unfolding validateEmail_def MatchString_lang email_re_def
    by (simp only: lang_Concat_iff [of _ "OpPlus _"] lang_literal_cons lang_plus_class
        lang_repeat_unbounded in_local_class in_domain_class in_alpha_class)
  also have "\<dots> \<longleftrightarrow> email_shape s"
    unfolding email_shape_def by blast
  finally show ?thesis .
qed

lemma split_at_unique:
  "a \<notin> set u' \<Longrightarrow> a \<notin> set v' \<Longrightarrow> u @ a # v = u' @ a # v' \<Longrightarrow> u = u' \<and> v = v'"
proof (induction u arbitrary: u')
  case Nil
  then show ?case by (cases u') auto
next
  case (Cons x u)
  then show ?case by (cases u') auto
qed

lemma not_alpha_misc:
  "\<not> is_alpha CHR ''@''" "\<not> is_alpha CHR ''.''" "\<not> is_digit CHR ''@''"
  "\<not> local_char CHR ''@''" "\<not> domain_char CHR ''@''"
  by (simp_all add: is_alpha_def is_digit_def local_char_def domain_char_def)

lemma email_shape_has_at: "email_shape s \<Longrightarrow> CHR ''@'' \<in> set s"
  by (auto simp: email_shape_def)

lemma email_shape_domain_dot:
  assumes "email_shape s" and "s = l @ ''@'' @ d"
  shows "CHR ''.'' \<in> set d"
proof -
  from assms(1) obtain l' d' t' where m: "s = l' @ ''@'' @ d' @ ''.'' @ t'"
    "list_all local_char l'" "list_all domain_char d'" "list_all is_alpha t'"
    by (auto simp: email_shape_def)
  have "CHR ''@'' \<notin> set l'" "CHR ''@'' \<notin> set (d' @ ''.'' @ t')"
    using m(2-4) not_alpha_misc by (auto simp: list_all_iff)
  moreover have "l @ CHR ''@'' # d = l' @ CHR ''@'' # (d' @ ''.'' @ t')"
    using m(1) assms(2) by simp
  ultimately have "d = d' @ ''.'' @ t'"
    using split_at_unique [of "CHR ''@''" l' "d' @ ''.'' @ t'" l d] by simp
  then show ?thesis by simp
qed

lemma email_shape_tld:
  assumes "email_shape s" and "s = p @ [CHR ''.'', c]"
  shows False
proof -
  from assms(1) obtain l d t where
    "s = l @ ''@'' @ d @ ''.'' @ t" and m: "2 \<le> length t" "list_all is_alpha t"
    by (auto simp: email_shape_def)
  then have "s = (l @ ''@'' @ d @ ''.'') @ t" by simp
  then obtain x where x: "s = x @ t" ..
  have "drop (length s - 2) s = drop (length t - 2) t"
    using x m(1) by simp
  moreover have "drop (length s - 2) s = [CHR ''.'', c]"
    using assms(2) by simp
  ultimately have "drop (length t - 2) t = [CHR ''.'', c]" by simp
  then have "CHR ''.'' \<in> set (drop (length t - 2) t)" by simp
  then have "CHR ''.'' \<in> set t" by (rule in_set_dropD)
  with m(2) show False using not_alpha_misc by (auto simp: list_all_iff)
qed

lemma phone_shape_digits:
  assumes "phone_shape s"
  shows "10 \<le> length (filter is_digit s) \<and> length (filter is_digit s) \<le> 15
         \<and> (\<forall>c\<in>set s. \<not> is_alpha c)"
proof -
  have na: "\<And>c. is_digit c \<Longrightarrow> \<not> is_alpha c"
    by (auto simp: is_digit_def is_alpha_def less_eq_char_def)
  have plus: "\<not> is_digit CHR ''+''" "\<not> is_alpha CHR ''+''"
    by (simp_all add: is_digit_def is_alpha_def)
  show ?thesis
  proof (cases s)
    case Nil
    with assms show ?thesis by (simp add: phone_shape_def)
  next
    case (Cons c r)
    show ?thesis
    proof (cases "c = CHR ''+''")
      case True
      with Cons assms have "10 \<le> length r" "length r \<le> 15" "list_all is_digit r"
        by (simp_all add: phone_shape_def)
      moreover from this have "filter is_digit r = r"
        by (simp add: list_all_iff)
      ultimately show ?thesis using Cons True plus na by (auto simp: list_all_iff)
    next
      case False
      with Cons assms have "10 \<le> length s" "length s \<le> 15" "list_all is_digit s"
        by (simp_all add: phone_shape_def)
      moreover from this have "filter is_digit s = s"
        by (simp add: list_all_iff)
      ultimately show ?thesis using na by (auto simp: list_all_iff)
    qed
  qed
qed


section \<open>Claims about validation\<close>

text \<open>
  C8. For every string, \<open>validatePhone\<close> is true exactly when the whole string is an
  optional leading \<^verbatim>\<open>+\<close> followed by 10 to 15 digits. It is a function of its argument
  alone. In particular it is false for the empty string, for a string that contains a
  letter, and for a string with fewer than 10 or more than 15 digits.
\<close>

theorem validatePhone_iff_shape:
  "(validatePhone s \<longleftrightarrow> phone_shape s)
   \<and> \<not> validatePhone []
   \<and> ((\<exists>c\<in>set s. is_alpha c) \<longrightarrow> \<not> validatePhone s)
   \<and> (length (filter is_digit s) < 10 \<or> 15 < length (filter is_digit s) \<longrightarrow> \<not> validatePhone s)"
proof (intro conjI impI)
  show "validatePhone s \<longleftrightarrow> phone_shape s" by (rule validatePhone_lang)
  show "\<not> validatePhone []" by (simp add: validatePhone_lang phone_shape_def)
next
  assume "\<exists>c\<in>set s. is_alpha c"
  then show "\<not> validatePhone s"
    using phone_shape_digits [of s] by (auto simp: validatePhone_lang)
next
  assume "length (filter is_digit s) < 10 \<or> 15 < length (filter is_digit s)"
  then show "\<not> validatePhone s"
    using phone_shape_digits [of s] by (auto simp: validatePhone_lang)
qed

text \<open>The theorem of C8 at an accepted number, at one with a letter and at a short one.\<close>

theorem validatePhone_iff_shape_witness:
  "validatePhone ''+12345678901'' \<and> \<not> validatePhone ''1234567890a'' \<and> \<not> validatePhone ''123''"
proof -
  have "\<exists>c\<in>set ''1234567890a''. is_alpha c" by (simp add: is_alpha_def)
  moreover have "length (filter is_digit ''123'') < 10" by (simp add: is_digit_def)
  moreover have "phone_shape ''+12345678901''" by (simp add: phone_shape_def is_digit_def)
  ultimately show ?thesis
    using validatePhone_iff_shape [of "''+12345678901''"]
      validatePhone_iff_shape [of "''1234567890a''"] validatePhone_iff_shape [of "''123''"]
    by blast
qed

text \<open>
  C9. For every string, \<open>validateEmail\<close> is true exactly when the whole string is a
  non-empty local part over \<^verbatim>\<open>[A-Za-z0-9._%+-]\<close>, an \<^verbatim>\<open>@\<close>, a non-empty domain part over
  \<^verbatim>\<open>[A-Za-z0-9.-]\<close>, a dot and two or more letters. It is a function of its argument
  alone. A string without \<^verbatim>\<open>@\<close>, one with no dot after the \<^verbatim>\<open>@\<close>, and one that ends in a dot
  and a single character are rejected.
\<close>

theorem validateEmail_iff_shape:
  "(validateEmail s \<longleftrightarrow> email_shape s)
   \<and> (CHR ''@'' \<notin> set s \<longrightarrow> \<not> validateEmail s)
   \<and> (\<forall>l d. s = l @ ''@'' @ d \<and> CHR ''.'' \<notin> set d \<longrightarrow> \<not> validateEmail s)
   \<and> (\<forall>p c. s = p @ [CHR ''.'', c] \<longrightarrow> \<not> validateEmail s)"
proof (intro conjI impI allI)
  show "validateEmail s \<longleftrightarrow> email_shape s" by (rule validateEmail_shape)
next
  assume "CHR ''@'' \<notin> set s"
  then show "\<not> validateEmail s"
    using email_shape_has_at [of s] by (auto simp: validateEmail_shape)
next
  fix l d
  assume "s = l @ ''@'' @ d \<and> CHR ''.'' \<notin> set d"
  then show "\<not> validateEmail s"
    using email_shape_domain_dot [of s l d] by (auto simp: validateEmail_shape)
next
  fix p c
  assume "s = p @ [CHR ''.'', c]"
  then show "\<not> validateEmail s"
    using email_shape_tld [of s p c] by (auto simp: validateEmail_shape)
qed

text \<open>The theorem of C9 at an accepted address and at one address for each rejection.\<close>

theorem validateEmail_iff_shape_witness:
  "validateEmail ''ann@example.com'' \<and> \<not> validateEmail ''ann.example.com''
   \<and> \<not> validateEmail ''ann@example'' \<and> \<not> validateEmail ''ann@example.c''"
proof -
  have "email_shape ''ann@example.com''"
    unfolding email_shape_def
    by (rule exI [of _ "''ann''"], rule exI [of _ "''example''"], rule exI [of _ "''com''"])
       (simp add: local_char_def domain_char_def is_alpha_def is_digit_def)
  then have a: "validateEmail ''ann@example.com''"
    using validateEmail_iff_shape [of "''ann@example.com''"] by blast
  have "CHR ''@'' \<notin> set ''ann.example.com''" by simp
  then have b: "\<not> validateEmail ''ann.example.com''"
    using validateEmail_iff_shape [of "''ann.example.com''"] by blast
  have "''ann@example'' = ''ann'' @ ''@'' @ ''example'' \<and> CHR ''.'' \<notin> set ''example''" by simp
  then have c: "\<not> validateEmail ''ann@example''"
    using validateEmail_iff_shape [of "''ann@example''"] by blast
  have "''ann@example.c'' = ''ann@example'' @ [CHR ''.'', CHR ''c'']" by simp
  then have d: "\<not> validateEmail ''ann@example.c''"
    using validateEmail_iff_shape [of "''ann@example.c''"] by blast
  from a b c d show ?thesis by blast
qed

section \<open>Facts and claims about the handlers\<close>

lemma StatusCode_http_Error: "StatusCode (http_Error msg code) = code"
  by (simp add: http_Error_def)

lemma Written_http_Error: "Written (http_Error msg code) = Text (msg @ [CHR 0x0A])"
  by (simp add: http_Error_def)

lemma CreateClient_undecodable:
  "Decoded r = None \<Longrightarrow>
   CreateClient pool rnd r d = (http_Error ''Invalid request body'' StatusBadRequest, d)"
  by (simp add: CreateClient_def)

lemma CreateClient_bad_format:
  "Decoded r = Some c \<Longrightarrow> \<not> validatePhone (Phone c) \<or> \<not> validateEmail (Email c) \<Longrightarrow>
   CreateClient pool rnd r d = (http_Error ''Invalid phone or email format'' StatusBadRequest, d)"
  by (auto simp: CreateClient_def)

lemma CreateClient_long_comment:
  "Decoded r = Some c \<Longrightarrow> validatePhone (Phone c) \<Longrightarrow> validateEmail (Email c) \<Longrightarrow>
   255 < length (Comment c) \<Longrightarrow>
   CreateClient pool rnd r d = (http_Error ''Comment is too long'' StatusBadRequest, d)"
  by (simp add: CreateClient_def)

text \<open>
  C5. A create request that fails validation (the body does not decode, the phone or the
  e-mail is not valid, or the comment is longer than 255 bytes) is answered with 400 and
  the handler state is returned as it was: the store state is unchanged and no statement
  has been issued, so no row is inserted.
\<close>

theorem CreateClient_rejects_before_store:
  assumes "Decoded r = None
     \<or> (\<exists>c. Decoded r = Some c
           \<and> (\<not> validatePhone (Phone c) \<or> \<not> validateEmail (Email c) \<or> 255 < length (Comment c)))"
  shows "StatusCode (fst (CreateClient pool rnd r d)) = StatusBadRequest
         \<and> snd (CreateClient pool rnd r d) = d"
proof -
  consider (body) "Decoded r = None"
    | (format) c where "Decoded r = Some c" "\<not> validatePhone (Phone c) \<or> \<not> validateEmail (Email c)"
    | (comment) c where "Decoded r = Some c" "validatePhone (Phone c)" "validateEmail (Email c)"
        "255 < length (Comment c)"
    using assms by auto
  then show ?thesis
  proof cases
    case body
    then show ?thesis by (simp add: CreateClient_undecodable StatusCode_http_Error)
  next
    case format
    then show ?thesis by (simp add: CreateClient_bad_format StatusCode_http_Error)
  next
    case comment
    then show ?thesis by (simp add: CreateClient_long_comment StatusCode_http_Error)
  qed
qed

lemma short_phone_rejected: "\<not> validatePhone ''123''"
  by (simp add: validatePhone_lang phone_shape_def)

text \<open>The theorem of C5 at a request whose phone is \<^verbatim>\<open>123\<close>, on the empty table.\<close>

theorem CreateClient_rejects_before_store_witness:
  "StatusCode (fst (CreateClient table_pool (replicate 16 0)
       \<lparr>Decoded = Some \<lparr>ID = [], Name = ''Ann'', Phone = ''123'', Email = ''ann@example.com'',
                          Comment = []\<rparr>, Params = [], URLQuery = []\<rparr>
       \<lparr>store = [], issued = []\<rparr>)) = StatusBadRequest
   \<and> snd (CreateClient table_pool (replicate 16 0)
       \<lparr>Decoded = Some \<lparr>ID = [], Name = ''Ann'', Phone = ''123'', Email = ''ann@example.com'',
                          Comment = []\<rparr>, Params = [], URLQuery = []\<rparr>
       \<lparr>store = [], issued = []\<rparr>) = \<lparr>store = [], issued = []\<rparr>"
  using CreateClient_rejects_before_store [of
      "\<lparr>Decoded = Some \<lparr>ID = [], Name = ''Ann'', Phone = ''123'', Email = ''ann@example.com'',
                          Comment = []\<rparr>, Params = [], URLQuery = []\<rparr>"
      table_pool "replicate 16 0" "\<lparr>store = [], issued = []\<rparr>"]
    short_phone_rejected
  by simp

text \<open>
  C4. For an update request whose body decodes, the e-mail is checked first, then the
  phone, then the length of the comment; the first check that fails answers 400 with its
  own message and nothing is sent to the store. When several checks would fail, the
  e-mail error is the one reported.
\<close>

theorem UpdateClient_validation_order:
  assumes "Decoded r = Some c"
  shows "(\<not> validateEmail (Email c) \<longrightarrow>
            UpdateClient pool r d = (http_Error ''Invalid email format'' StatusBadRequest, d))
       \<and> (validateEmail (Email c) \<and> \<not> validatePhone (Phone c) \<longrightarrow>
            UpdateClient pool r d = (http_Error ''Invalid phone format'' StatusBadRequest, d))
       \<and> (validateEmail (Email c) \<and> validatePhone (Phone c) \<and> 255 < length (Comment c) \<longrightarrow>
            UpdateClient pool r d = (http_Error ''Comment is too long'' StatusBadRequest, d))"
  using assms by (simp add: UpdateClient_def)

lemma no_at_rejected: "\<not> validateEmail ''nobody''"
  using email_shape_has_at [of "''nobody''"] by (auto simp: validateEmail_shape)

text \<open>The theorem of C4 at a request that violates all three rules at once.\<close>

theorem UpdateClient_validation_order_witness:
  "UpdateClient table_pool
     \<lparr>Decoded = Some \<lparr>ID = [], Name = ''Ann'', Phone = ''123'', Email = ''nobody'',
                        Comment = replicate 256 CHR ''x''\<rparr>,
      Params = [(''id'', ''c1'')], URLQuery = []\<rparr>
     \<lparr>store = [], issued = []\<rparr>
   = (http_Error ''Invalid email format'' StatusBadRequest, \<lparr>store = [], issued = []\<rparr>)"
  using UpdateClient_validation_order [of
      "\<lparr>Decoded = Some \<lparr>ID = [], Name = ''Ann'', Phone = ''123'', Email = ''nobody'',
                        Comment = replicate 256 CHR ''x''\<rparr>,
      Params = [(''id'', ''c1'')], URLQuery = []\<rparr>"
      "\<lparr>ID = [], Name = ''Ann'', Phone = ''123'', Email = ''nobody'',
                        Comment = replicate 256 CHR ''x''\<rparr>"
      table_pool "\<lparr>store = [], issued = []\<rparr>"]
    no_at_rejected
  by simp

lemma scan_rows_Some:
  "scan_rows rows (Some acc) = Inr clients \<Longrightarrow> \<exists>cs. clients = Some (acc @ cs) \<and> rows = map Inr cs"
proof (induction rows arbitrary: acc)
  case Nil
  then have "clients = Some (acc @ []) \<and> [] = map Inr ([] :: Client list)" by simp
  then show ?case by (rule exI)
next
  case (Cons row rows)
  show ?case
  proof (cases row)
    case (Inl e)
    with Cons.prems show ?thesis by simp
  next
    case (Inr c)
    with Cons.prems have rest: "scan_rows rows (Some (acc @ [c])) = Inr clients"
      by (simp add: append_slice_def)
    from Cons.IH [OF rest] obtain cs where cs: "clients = Some ((acc @ [c]) @ cs)" "rows = map Inr cs"
      by (elim exE conjE)
    have "clients = Some (acc @ (c # cs)) \<and> row # rows = map Inr (c # cs)"
      using cs Inr by simp
    then show ?thesis by (rule exI)
  qed
qed

lemma fetch_clients_failed:
  "db_Query pool (SELECT_clients limit offset) d = (Inl e, d1) \<Longrightarrow>
   fetch_clients pool limit offset d
     = (http_Error ''Internal server error'' StatusInternalServerError, d1)"
  by (simp add: fetch_clients_def)

lemma fetch_clients_scan_failed:
  "db_Query pool (SELECT_clients limit offset) d = (Inr rows, d1) \<Longrightarrow>
   scan_rows rows (Some []) = Inl e \<Longrightarrow>
   fetch_clients pool limit offset d
     = (http_Error ''Internal server error'' StatusInternalServerError, d1)"
  by (simp add: fetch_clients_def)

lemma fetch_clients_scanned:
  "db_Query pool (SELECT_clients limit offset) d = (Inr rows, d1) \<Longrightarrow>
   scan_rows rows (Some []) = Inr clients \<Longrightarrow>
   fetch_clients pool limit offset d
     = (\<lparr>StatusCode = StatusOK, Written = Json (Encode_Clients clients)\<rparr>, d1)"
  by (simp add: fetch_clients_def)

lemma fetch_clients_cases:
  "fetch_clients pool limit offset d
     = (http_Error ''Internal server error'' StatusInternalServerError,
        snd (db_Query pool (SELECT_clients limit offset) d))
   \<or> (\<exists>cs. fetch_clients pool limit offset d
          = (\<lparr>StatusCode = StatusOK, Written = Json (JArray (map Encode_Client cs))\<rparr>,
             snd (db_Query pool (SELECT_clients limit offset) d))
        \<and> fst (db_Query pool (SELECT_clients limit offset) d) = Inr (map Inr cs))"
proof -
  obtain res d1 where q: "db_Query pool (SELECT_clients limit offset) d = (res, d1)"
    by (cases "db_Query pool (SELECT_clients limit offset) d")
  show ?thesis
  proof (cases res)
    case (Inl e)
    with q show ?thesis by (simp add: fetch_clients_failed)
  next
    case (Inr rows)
    show ?thesis
    proof (cases "scan_rows rows (Some [])")
      case (Inl e)
      with q Inr show ?thesis by (simp add: fetch_clients_scan_failed)
    next
      case scanned: (Inr clients)
      from scan_rows_Some [OF scanned] obtain cs where cs: "clients = Some cs" "rows = map Inr cs"
        by auto
      have "fetch_clients pool limit offset d
          = (\<lparr>StatusCode = StatusOK, Written = Json (JArray (map Encode_Client cs))\<rparr>, d1)"
        using fetch_clients_scanned [of pool limit offset d rows d1 clients] q Inr scanned cs
        by (simp add: Encode_Clients_def)
      with q Inr cs(2) show ?thesis by auto
    qed
  qed
qed


lemma fetch_clients_status:
  "StatusCode (fst (fetch_clients pool limit offset d)) = StatusOK
   \<or> StatusCode (fst (fetch_clients pool limit offset d)) = StatusInternalServerError"
  using fetch_clients_cases [of pool limit offset d]
  by (auto simp: http_Error_def)





lemma query_Get_absent: "map_of (URLQuery r) k = None \<Longrightarrow> query_Get r k = []"
  by (simp add: query_Get_def)

lemma query_Get_present: "map_of (URLQuery r) k = Some (v # vs) \<Longrightarrow> query_Get r k = v"
  by (simp add: query_Get_def)

lemma map_of_without: "map_of (without k q) k' = (if k' = k then None else map_of q k')"
  by (induction q) (auto simp: without_def)

lemma query_Get_without_same: "query_Get (r\<lparr>URLQuery := without k (URLQuery r)\<rparr>) k = []"
  by (simp add: query_Get_def map_of_without)

lemma query_Get_without_other:
  "k' \<noteq> k \<Longrightarrow> query_Get (r\<lparr>URLQuery := without k (URLQuery r)\<rparr>) k' = query_Get r k'"
  by (simp add: query_Get_def map_of_without)

lemma GetClients_limit_rejected:
  "query_Get r ''limit'' \<noteq> [] \<Longrightarrow> rejected_value (query_Get r ''limit'') \<Longrightarrow>
   GetClients pool r d = (http_Error ''Invalid limit value'' StatusBadRequest, d)"
  by (simp add: GetClients_def Let_def rejected_value_def split: sum.splits)

lemma GetClients_offset_rejected:
  "query_Get r ''limit'' = [] \<or> \<not> rejected_value (query_Get r ''limit'') \<Longrightarrow>
   query_Get r ''offset'' \<noteq> [] \<Longrightarrow> rejected_value (query_Get r ''offset'') \<Longrightarrow>
   GetClients pool r d = (http_Error ''Invalid offset value'' StatusBadRequest, d)"
  by (auto simp: GetClients_def Let_def rejected_value_def split: sum.splits)

lemma GetClients_accepted:
  "query_Get r ''limit'' = [] \<or> \<not> rejected_value (query_Get r ''limit'') \<Longrightarrow>
   query_Get r ''offset'' = [] \<or> \<not> rejected_value (query_Get r ''offset'') \<Longrightarrow>
   GetClients pool r d
     = fetch_clients pool (param_value 10 (query_Get r ''limit''))
         (param_value 0 (query_Get r ''offset'')) d"
  by (auto simp: GetClients_def Let_def rejected_value_def param_value_def split: sum.splits)

lemma GetClients_depends_on_params:
  assumes "query_Get r' ''limit'' = query_Get r ''limit''"
    and "query_Get r' ''offset'' = query_Get r ''offset''"
  shows "GetClients pool r' d = GetClients pool r d"
  using assms by (simp add: GetClients_def Let_def)

lemma fetch_clients_not_400:
  "fst (fetch_clients pool limit offset d) \<noteq> http_Error msg StatusBadRequest"
  using fetch_clients_status [of pool limit offset d]
  by (auto simp: http_Error_def)

lemma GetClients_without_limit:
  "query_Get r ''limit'' = [] \<Longrightarrow>
   GetClients pool (r\<lparr>URLQuery := without ''limit'' (URLQuery r)\<rparr>) d = GetClients pool r d"
  by (rule GetClients_depends_on_params)
     (simp_all add: query_Get_without_same query_Get_without_other)

lemma GetClients_without_offset:
  "query_Get r ''offset'' = [] \<Longrightarrow>
   GetClients pool (r\<lparr>URLQuery := without ''offset'' (URLQuery r)\<rparr>) d = GetClients pool r d"
  by (rule GetClients_depends_on_params)
     (simp_all add: query_Get_without_same query_Get_without_other)

lemma GetClients_empty_limit_default:
  assumes "query_Get r ''limit'' = []"
    and "\<not> (query_Get r ''offset'' \<noteq> [] \<and> rejected_value (query_Get r ''offset''))"
  shows "GetClients pool r d = fetch_clients pool 10 (param_value 0 (query_Get r ''offset'')) d"
proof -
  have "GetClients pool r d
      = fetch_clients pool (param_value 10 (query_Get r ''limit''))
          (param_value 0 (query_Get r ''offset'')) d"
    using assms by (intro GetClients_accepted) blast+
  then show ?thesis using assms(1) by (simp add: param_value_def)
qed

lemma GetClients_empty_offset_default:
  assumes "query_Get r ''offset'' = []"
    and "\<not> (query_Get r ''limit'' \<noteq> [] \<and> rejected_value (query_Get r ''limit''))"
  shows "GetClients pool r d = fetch_clients pool (param_value 10 (query_Get r ''limit'')) 0 d"
proof -
  have "GetClients pool r d
      = fetch_clients pool (param_value 10 (query_Get r ''limit''))
          (param_value 0 (query_Get r ''offset'')) d"
    using assms by (intro GetClients_accepted) blast+
  then show ?thesis using assms(1) by (simp add: param_value_def)
qed

lemma GetClients_empty_limit_response:
  assumes "query_Get r ''limit'' = []"
  shows "fst (GetClients pool r d) \<noteq> http_Error ''Invalid limit value'' StatusBadRequest"
proof (cases "query_Get r ''offset'' \<noteq> [] \<and> rejected_value (query_Get r ''offset'')")
  case True
  then have "GetClients pool r d = (http_Error ''Invalid offset value'' StatusBadRequest, d)"
    using assms by (intro GetClients_offset_rejected) simp_all
  then show ?thesis by (simp add: http_Error_def)
next
  case False
  then show ?thesis
    using GetClients_empty_limit_default [OF assms False, of pool d] by (simp add: fetch_clients_not_400)
qed

lemma GetClients_empty_offset_response:
  assumes "query_Get r ''offset'' = []"
  shows "fst (GetClients pool r d) \<noteq> http_Error ''Invalid offset value'' StatusBadRequest"
proof (cases "query_Get r ''limit'' \<noteq> [] \<and> rejected_value (query_Get r ''limit'')")
  case True
  then have "GetClients pool r d = (http_Error ''Invalid limit value'' StatusBadRequest, d)"
    by (intro GetClients_limit_rejected) simp_all
  then show ?thesis by (simp add: http_Error_def)
next
  case False
  then show ?thesis
    using GetClients_empty_offset_default [OF assms False, of pool d] by (simp add: fetch_clients_not_400)
qed

text \<open>
  C10. When \<^verbatim>\<open>limit\<close> or \<^verbatim>\<open>offset\<close> is present in the query with the empty string as its
  value (as in \<^verbatim>\<open>?limit=\<close>), the list handler answers as it does for the request without
  that parameter: it does not answer 400 for it and goes on with the default, 10 for
  \<^verbatim>\<open>limit\<close> and 0 for \<^verbatim>\<open>offset\<close>.
\<close>

theorem empty_parameter_is_absent:
  assumes "k = ''limit'' \<or> k = ''offset''"
    and "map_of (URLQuery r) k = Some ([] # vs)"
  shows "GetClients pool r d = GetClients pool (r\<lparr>URLQuery := without k (URLQuery r)\<rparr>) d
       \<and> map_of (without k (URLQuery r)) k = None
       \<and> fst (GetClients pool r d) \<noteq> http_Error (''Invalid '' @ k @ '' value'') StatusBadRequest
       \<and> (k = ''limit'' \<and> \<not> (query_Get r ''offset'' \<noteq> [] \<and> rejected_value (query_Get r ''offset''))
            \<longrightarrow> GetClients pool r d
                  = fetch_clients pool 10 (param_value 0 (query_Get r ''offset'')) d)
       \<and> (k = ''offset'' \<and> \<not> (query_Get r ''limit'' \<noteq> [] \<and> rejected_value (query_Get r ''limit''))
            \<longrightarrow> GetClients pool r d
                  = fetch_clients pool (param_value 10 (query_Get r ''limit'')) 0 d)"
proof -
  have empty: "query_Get r k = []"
    using assms(2) by (rule query_Get_present)
  have gone: "map_of (without k (URLQuery r)) k = None"
    by (simp add: map_of_without)
  from assms(1) show ?thesis
  proof
    assume k: "k = ''limit''"
    have e: "query_Get r ''limit'' = []" using empty k by simp
    show ?thesis
      unfolding k
      using GetClients_without_limit [OF e, of pool d] GetClients_empty_limit_response [OF e, of pool d]
        GetClients_empty_limit_default [OF e, of pool d] gone [unfolded k]
      by simp
  next
    assume k: "k = ''offset''"
    have e: "query_Get r ''offset'' = []" using empty k by simp
    show ?thesis
      unfolding k
      using GetClients_without_offset [OF e, of pool d] GetClients_empty_offset_response [OF e, of pool d]
        GetClients_empty_offset_default [OF e, of pool d] gone [unfolded k]
      by simp
  qed
qed

text \<open>The theorem of C10 at the request \<^verbatim>\<open>?limit=\<close> on the empty table.\<close>

theorem empty_parameter_is_absent_witness:
  "fst (GetClients table_pool \<lparr>Decoded = None, Params = [], URLQuery = [(''limit'', [[]])]\<rparr>
          \<lparr>store = [], issued = []\<rparr>)
     \<noteq> http_Error ''Invalid limit value'' StatusBadRequest
   \<and> GetClients table_pool \<lparr>Decoded = None, Params = [], URLQuery = [(''limit'', [[]])]\<rparr>
          \<lparr>store = [], issued = []\<rparr>
     = fetch_clients table_pool 10 0 \<lparr>store = [], issued = []\<rparr>"
proof -
  let ?r = "\<lparr>Decoded = None, Params = [], URLQuery = [(''limit'', [[]])]\<rparr>"
  let ?d = "\<lparr>store = [] :: Client list, issued = []\<rparr>"
  have h1: "''limit'' = ''limit'' \<or> ''limit'' = ''offset''" by simp
  have h2: "map_of (URLQuery ?r) ''limit'' = Some ([] # [])" by simp
  note T = empty_parameter_is_absent [OF h1 h2, of table_pool ?d]
  have o: "query_Get ?r ''offset'' = []" by (simp add: query_Get_def)
  have "fst (GetClients table_pool ?r ?d) \<noteq> http_Error ''Invalid limit value'' StatusBadRequest"
    using T [THEN conjunct2, THEN conjunct2, THEN conjunct1] by simp
  moreover have "GetClients table_pool ?r ?d = fetch_clients table_pool 10 0 ?d"
    using T [THEN conjunct2, THEN conjunct2, THEN conjunct2, THEN conjunct1] o
    by (simp add: param_value_def)
  ultimately show ?thesis by (rule conjI)
qed

lemma rejected_empty: "rejected_value []"
  by (simp add: rejected_value_def Atoi_def)

text \<open>
  C6, as amended. \<^verbatim>\<open>limit\<close> and \<^verbatim>\<open>offset\<close> default to 10 and 0 when the parameter is
  absent. A parameter that is present with a value that is not empty and that
  \<^verbatim>\<open>strconv.Atoi\<close> rejects or reads as a negative number is answered with 400, the handler
  state unchanged (no statement issued); the message names \<^verbatim>\<open>limit\<close> when \<^verbatim>\<open>limit\<close> is
  rejected, and \<^verbatim>\<open>offset\<close> when only \<^verbatim>\<open>offset\<close> is.
\<close>

theorem GetClients_parameters:
  "(map_of (URLQuery r) ''limit'' = None \<and> map_of (URLQuery r) ''offset'' = None \<longrightarrow>
      GetClients pool r d = fetch_clients pool 10 0 d)
   \<and> (map_of (URLQuery r) ''limit'' = None
        \<and> \<not> (query_Get r ''offset'' \<noteq> [] \<and> rejected_value (query_Get r ''offset'')) \<longrightarrow>
      GetClients pool r d = fetch_clients pool 10 (param_value 0 (query_Get r ''offset'')) d)
   \<and> (map_of (URLQuery r) ''offset'' = None
        \<and> \<not> (query_Get r ''limit'' \<noteq> [] \<and> rejected_value (query_Get r ''limit'')) \<longrightarrow>
      GetClients pool r d = fetch_clients pool (param_value 10 (query_Get r ''limit'')) 0 d)
   \<and> (\<forall>v vs. map_of (URLQuery r) ''limit'' = Some (v # vs) \<and> v \<noteq> [] \<and> rejected_value v \<longrightarrow>
      GetClients pool r d = (http_Error ''Invalid limit value'' StatusBadRequest, d))
   \<and> (\<forall>v vs. map_of (URLQuery r) ''offset'' = Some (v # vs) \<and> v \<noteq> [] \<and> rejected_value v \<longrightarrow>
      StatusCode (fst (GetClients pool r d)) = StatusBadRequest
      \<and> snd (GetClients pool r d) = d
      \<and> (if query_Get r ''limit'' \<noteq> [] \<and> rejected_value (query_Get r ''limit'')
          then fst (GetClients pool r d) = http_Error ''Invalid limit value'' StatusBadRequest
          else fst (GetClients pool r d) = http_Error ''Invalid offset value'' StatusBadRequest))"
proof (intro conjI impI allI)
  assume "map_of (URLQuery r) ''limit'' = None \<and> map_of (URLQuery r) ''offset'' = None"
  then have "query_Get r ''limit'' = []" "query_Get r ''offset'' = []"
    by (simp_all add: query_Get_absent)
  then show "GetClients pool r d = fetch_clients pool 10 0 d"
    using GetClients_empty_limit_default [of r pool d] by (simp add: param_value_def)
next
  assume a: "map_of (URLQuery r) ''limit'' = None
        \<and> \<not> (query_Get r ''offset'' \<noteq> [] \<and> rejected_value (query_Get r ''offset''))"
  then have "query_Get r ''limit'' = []" by (simp add: query_Get_absent)
  with a show "GetClients pool r d = fetch_clients pool 10 (param_value 0 (query_Get r ''offset'')) d"
    by (intro GetClients_empty_limit_default) simp_all
next
  assume a: "map_of (URLQuery r) ''offset'' = None
        \<and> \<not> (query_Get r ''limit'' \<noteq> [] \<and> rejected_value (query_Get r ''limit''))"
  then have "query_Get r ''offset'' = []" by (simp add: query_Get_absent)
  with a show "GetClients pool r d = fetch_clients pool (param_value 10 (query_Get r ''limit'')) 0 d"
    by (intro GetClients_empty_offset_default) simp_all
next
  fix v vs
  assume a: "map_of (URLQuery r) ''limit'' = Some (v # vs) \<and> v \<noteq> [] \<and> rejected_value v"
  then have "query_Get r ''limit'' = v" by (simp add: query_Get_present)
  with a show "GetClients pool r d = (http_Error ''Invalid limit value'' StatusBadRequest, d)"
    by (intro GetClients_limit_rejected) simp_all
next
  fix v vs
  assume a: "map_of (URLQuery r) ''offset'' = Some (v # vs) \<and> v \<noteq> [] \<and> rejected_value v"
  then have o: "query_Get r ''offset'' = v" by (simp add: query_Get_present)
  have G: "GetClients pool r d =
       (if query_Get r ''limit'' \<noteq> [] \<and> rejected_value (query_Get r ''limit'')
        then (http_Error ''Invalid limit value'' StatusBadRequest, d)
        else (http_Error ''Invalid offset value'' StatusBadRequest, d))"
  proof (cases "query_Get r ''limit'' \<noteq> [] \<and> rejected_value (query_Get r ''limit'')")
    case True
    then show ?thesis by (simp add: GetClients_limit_rejected)
  next
    case False
    then have "GetClients pool r d = (http_Error ''Invalid offset value'' StatusBadRequest, d)"
      using a o by (intro GetClients_offset_rejected) auto
    then show ?thesis using False by (simp only: if_False)
  qed
  show "StatusCode (fst (GetClients pool r d)) = StatusBadRequest"
    by (simp add: G StatusCode_http_Error)
  show "snd (GetClients pool r d) = d"
    by (simp add: G)
  show "if query_Get r ''limit'' \<noteq> [] \<and> rejected_value (query_Get r ''limit'')
          then fst (GetClients pool r d) = http_Error ''Invalid limit value'' StatusBadRequest
          else fst (GetClients pool r d) = http_Error ''Invalid offset value'' StatusBadRequest"
    by (simp add: G)
qed

lemma rejected_abc: "rejected_value ''abc''"
  by (simp add: rejected_value_def Atoi_def ParseUint_def is_digit_def)

lemma rejected_minus_one: "rejected_value ''-1''"
  by (simp add: rejected_value_def Atoi_def ParseUint_def is_digit_def digit_val_def)

text \<open>The theorem of C6 at a request without parameters, at \<^verbatim>\<open>?limit=abc\<close> and at
  \<^verbatim>\<open>?offset=-1\<close>.\<close>

theorem GetClients_parameters_witness:
  "GetClients table_pool \<lparr>Decoded = None, Params = [], URLQuery = []\<rparr> \<lparr>store = [], issued = []\<rparr>
     = fetch_clients table_pool 10 0 \<lparr>store = [], issued = []\<rparr>
   \<and> GetClients table_pool \<lparr>Decoded = None, Params = [], URLQuery = [(''limit'', [''abc''])]\<rparr>
         \<lparr>store = [], issued = []\<rparr>
     = (http_Error ''Invalid limit value'' StatusBadRequest, \<lparr>store = [], issued = []\<rparr>)
   \<and> GetClients table_pool \<lparr>Decoded = None, Params = [], URLQuery = [(''offset'', [''-1''])]\<rparr>
         \<lparr>store = [], issued = []\<rparr>
     = (http_Error ''Invalid offset value'' StatusBadRequest, \<lparr>store = [], issued = []\<rparr>)"
proof -
  let ?d = "\<lparr>store = [] :: Client list, issued = []\<rparr>"
  have a: "GetClients table_pool \<lparr>Decoded = None, Params = [], URLQuery = []\<rparr> ?d
      = fetch_clients table_pool 10 0 ?d"
    using GetClients_parameters [of "\<lparr>Decoded = None, Params = [], URLQuery = []\<rparr>" table_pool ?d]
    by simp
  have b: "GetClients table_pool \<lparr>Decoded = None, Params = [], URLQuery = [(''limit'', [''abc''])]\<rparr> ?d
      = (http_Error ''Invalid limit value'' StatusBadRequest, ?d)"
    using GetClients_parameters [of
        "\<lparr>Decoded = None, Params = [], URLQuery = [(''limit'', [''abc''])]\<rparr>" table_pool ?d]
      rejected_abc
    by simp
  have c: "GetClients table_pool \<lparr>Decoded = None, Params = [], URLQuery = [(''offset'', [''-1''])]\<rparr> ?d
      = (http_Error ''Invalid offset value'' StatusBadRequest, ?d)"
    using GetClients_parameters [of
        "\<lparr>Decoded = None, Params = [], URLQuery = [(''offset'', [''-1''])]\<rparr>" table_pool ?d]
      rejected_minus_one
    by (simp add: query_Get_def prod_eq_iff)
  from a b c show ?thesis by simp
qed

text \<open>
  C6 as first stated fails at \<^verbatim>\<open>?limit=\<close>: the parameter is present, its value is not a
  number, and the answer is 200 after a query with the default limit.
\<close>

theorem GetClients_empty_limit_counterexample:
  "map_of (URLQuery \<lparr>Decoded = None, Params = [], URLQuery = [(''limit'', [[]])]\<rparr>) ''limit''
     = Some [[]]
   \<and> rejected_value []
   \<and> GetClients table_pool \<lparr>Decoded = None, Params = [], URLQuery = [(''limit'', [[]])]\<rparr>
         \<lparr>store = [], issued = []\<rparr>
     = (\<lparr>StatusCode = StatusOK, Written = Json (JArray [])\<rparr>,
        \<lparr>store = [], issued = [SELECT_clients 10 0]\<rparr>)"
  by (simp add: rejected_empty GetClients_def query_Get_def fetch_clients_def db_Query_def
      table_pool_def table_Query_def Encode_Clients_def)

lemma valid_phone_example: "validatePhone ''+12345678901''"
  by (simp add: validatePhone_lang phone_shape_def is_digit_def)

lemma valid_email_example: "validateEmail ''ann@example.com''"
  unfolding validateEmail_shape email_shape_def
  by (rule exI [of _ "''ann''"], rule exI [of _ "''example''"], rule exI [of _ "''com''"])
     (simp add: local_char_def domain_char_def is_alpha_def is_digit_def)

text \<open>Every successful update answers with the struct of the body, its \<open>ID\<close> included.\<close>

lemma UpdateClient_success_body:
  assumes "UpdateClient pool r d = (resp, d')" and "StatusCode resp = StatusOK"
  shows "\<exists>c. Decoded r = Some c \<and> Written resp = Json (Encode_Client c)
             \<and> json_field ''id'' (Encode_Client c) = Some (JString (ID c))"
proof (cases "Decoded r")
  case None
  with assms show ?thesis by (auto simp: UpdateClient_def http_Error_def)
next
  case (Some c)
  have ok: "validateEmail (Email c)" "validatePhone (Phone c)" "\<not> 255 < length (Comment c)"
    using assms Some by (auto simp: UpdateClient_def http_Error_def split: if_splits)
  obtain res d1 where e: "db_Exec pool
      (UPDATE_client (Name c) (Phone c) (Email c) (Comment c) (ByName (Params r) ''id'')) d = (res, d1)"
    by (cases "db_Exec pool
      (UPDATE_client (Name c) (Phone c) (Email c) (Comment c) (ByName (Params r) ''id'')) d")
  have U: "UpdateClient pool r d =
      (case res of
         Inl err \<Rightarrow> (http_Error ''Internal server error'' StatusInternalServerError, d1)
       | Inr rowsAffected \<Rightarrow>
           if rowsAffected = 0 then (http_Error ''Client not found'' StatusNotFound, d1)
           else (\<lparr>StatusCode = StatusOK, Written = Json (Encode_Client c)\<rparr>, d1))"
    using Some ok e by (simp add: UpdateClient_def)
  have "Written resp = Json (Encode_Client c)"
  proof (cases res)
    case (Inl err)
    with U assms show ?thesis by (auto simp: http_Error_def)
  next
    case (Inr n)
    with U assms show ?thesis by (cases "n = 0") (auto simp: http_Error_def)
  qed
  moreover have "json_field ''id'' (Encode_Client c) = Some (JString (ID c))"
    by (simp add: json_field_def Encode_Client_def)
  ultimately show ?thesis using Some by simp
qed

lemma length_concat_replicate: "length (concat (replicate n xs)) = n * length xs"
  by (induction n) simp_all

lemma RuneCount_concat_replicate:
  "RuneCountInString (concat (replicate n xs)) = n * RuneCountInString xs"
  by (induction n) (simp_all add: RuneCountInString_def)

lemma RuneCount_le_length: "RuneCountInString s \<le> length s"
  by (simp add: RuneCountInString_def)

lemma RuneCount_ascii:
  "\<forall>c\<in>set s. c < CHR 0x80 \<Longrightarrow> RuneCountInString s = length s"
  by (induction s) (auto simp: RuneCountInString_def is_continuation_def)

lemma ya_is_one_rune: "RuneCountInString [CHR 0xD1, CHR 0x8F] = 1"
  by (simp add: RuneCountInString_def is_continuation_def)

lemma length_hex_Encode: "length (hex_Encode bs) = 2 * length bs"
  by (induction bs) simp_all

lemma length_NewRandom: "length (NewRandom rnd) = length rnd"
  by (simp add: NewRandom_def Let_def)

lemma uuid_String_nonempty: "uuid_String u \<noteq> []"
  by (simp add: uuid_String_def)

lemma length_uuid_String: "length u = 16 \<Longrightarrow> length (uuid_String u) = 36"
  by (simp add: uuid_String_def length_hex_Encode)

lemma CreateClient_ignores_body_id:
  "Decoded r = Some c \<Longrightarrow>
   CreateClient pool rnd (r\<lparr>Decoded := Some (c\<lparr>ID := x\<rparr>)\<rparr>) d = CreateClient pool rnd r d"
  by (simp add: CreateClient_def Let_def)

lemma CreateClient_created:
  assumes "CreateClient pool rnd r d = (resp, d')" and "StatusCode resp = StatusCreated"
  shows "\<exists>c. Decoded r = Some c
           \<and> Written resp = Json (Encode_Client (c\<lparr>ID := uuid_String (NewRandom rnd)\<rparr>))
           \<and> issued d' = issued d @ [INSERT_client (uuid_String (NewRandom rnd)) (Name c)
                                      (Phone c) (Email c) (Comment c)]"
proof (cases "Decoded r")
  case None
  with assms show ?thesis by (auto simp: CreateClient_def http_Error_def)
next
  case (Some c)
  let ?g = "uuid_String (NewRandom rnd)"
  let ?q = "INSERT_client ?g (Name c) (Phone c) (Email c) (Comment c)"
  have ok: "validatePhone (Phone c)" "validateEmail (Email c)" "\<not> 255 < length (Comment c)"
    using assms Some by (auto simp: CreateClient_def http_Error_def split: if_splits)
  obtain res s1 where e: "Exec pool ?q (store d) = (res, s1)"
    by (cases "Exec pool ?q (store d)")
  have C: "CreateClient pool rnd r d =
      (case res of
         Inl err \<Rightarrow> (http_Error ''Internal server error'' StatusInternalServerError,
                      \<lparr>store = s1, issued = issued d @ [?q]\<rparr>)
       | Inr tag \<Rightarrow> (\<lparr>StatusCode = StatusCreated, Written = Json (Encode_Client (c\<lparr>ID := ?g\<rparr>))\<rparr>,
                      \<lparr>store = s1, issued = issued d @ [?q]\<rparr>))"
    using Some ok e by (simp add: CreateClient_def Let_def db_Exec_def)
  have "Written resp = Json (Encode_Client (c\<lparr>ID := ?g\<rparr>)) \<and> issued d' = issued d @ [?q]"
  proof (cases res)
    case (Inl err)
    with C assms show ?thesis by (auto simp: http_Error_def)
  next
    case (Inr tag)
    with C assms show ?thesis by auto
  qed
  with Some show ?thesis by simp
qed

lemma uuid_of_zeros:
  "uuid_String (NewRandom (replicate 16 0)) = ''00000000-0000-4000-8000-000000000000''"
  by code_simp

lemma CreateClient_example:
  "CreateClient table_pool (replicate 16 0)
     \<lparr>Decoded = Some \<lparr>ID = i, Name = ''Ann'', Phone = ''+12345678901'',
                        Email = ''ann@example.com'', Comment = []\<rparr>,
      Params = [], URLQuery = []\<rparr>
     \<lparr>store = [], issued = []\<rparr>
   = (\<lparr>StatusCode = StatusCreated,
       Written = Json (JObject [(''id'', JString ''00000000-0000-4000-8000-000000000000''),
                    (''name'', JString ''Ann''), (''phone'', JString ''+12345678901''),
                    (''email'', JString ''ann@example.com'')])\<rparr>,
      \<lparr>store = [\<lparr>ID = ''00000000-0000-4000-8000-000000000000'', Name = ''Ann'',
                  Phone = ''+12345678901'', Email = ''ann@example.com'', Comment = []\<rparr>],
        issued = [INSERT_client ''00000000-0000-4000-8000-000000000000'' ''Ann''
                    ''+12345678901'' ''ann@example.com'' []]\<rparr>)"
  by (simp add: CreateClient_def Let_def valid_phone_example valid_email_example uuid_of_zeros
      db_Exec_def table_pool_def table_Exec_def Encode_Client_def)

lemma UpdateClient_long_comment:
  "Decoded r = Some c \<Longrightarrow> validatePhone (Phone c) \<Longrightarrow> validateEmail (Email c) \<Longrightarrow>
   255 < length (Comment c) \<Longrightarrow>
   UpdateClient pool r d = (http_Error ''Comment is too long'' StatusBadRequest, d)"
  by (simp add: UpdateClient_def)

lemma CreateClient_comment_fits:
  assumes "Decoded r = Some c" "validatePhone (Phone c)" "validateEmail (Email c)"
    and "length (Comment c) \<le> 255"
  shows "StatusCode (fst (CreateClient pool rnd r d)) \<noteq> StatusBadRequest"
proof -
  let ?q = "INSERT_client (uuid_String (NewRandom rnd)) (Name c) (Phone c) (Email c) (Comment c)"
  obtain res s1 where e: "Exec pool ?q (store d) = (res, s1)"
    by (cases "Exec pool ?q (store d)")
  show ?thesis
    using assms e
    by (cases res) (simp_all add: CreateClient_def Let_def db_Exec_def http_Error_def)
qed

lemma UpdateClient_comment_fits:
  assumes "Decoded r = Some c" "validatePhone (Phone c)" "validateEmail (Email c)"
    and "length (Comment c) \<le> 255"
  shows "StatusCode (fst (UpdateClient pool r d)) \<noteq> StatusBadRequest"
proof -
  let ?q = "UPDATE_client (Name c) (Phone c) (Email c) (Comment c) (ByName (Params r) ''id'')"
  obtain res s1 where e: "Exec pool ?q (store d) = (res, s1)"
    by (cases "Exec pool ?q (store d)")
  show ?thesis
    using assms e
    by (cases res) (simp_all add: UpdateClient_def Let_def db_Exec_def http_Error_def)
qed

text \<open>On comments of ASCII characters the two counts agree and 255 characters pass the
  check; 256 characters or more are at least 256 bytes and are rejected whatever the
  characters are.\<close>

lemma comment_255_ascii_accepted:
  assumes "Decoded r = Some c" "validatePhone (Phone c)" "validateEmail (Email c)"
    and "\<forall>ch\<in>set (Comment c). ch < CHR 0x80" and "RuneCountInString (Comment c) = 255"
  shows "StatusCode (fst (CreateClient pool rnd r d)) \<noteq> StatusBadRequest
         \<and> StatusCode (fst (UpdateClient pool r d)) \<noteq> StatusBadRequest"
proof -
  have "length (Comment c) \<le> 255"
    using RuneCount_ascii [OF assms(4)] assms(5) by simp
  then show ?thesis
    using assms(1-3) by (simp add: CreateClient_comment_fits UpdateClient_comment_fits)
qed

lemma comment_256_rejected:
  assumes "Decoded r = Some c" "validatePhone (Phone c)" "validateEmail (Email c)"
    and "256 \<le> RuneCountInString (Comment c)"
  shows "CreateClient pool rnd r d = (http_Error ''Comment is too long'' StatusBadRequest, d)
         \<and> UpdateClient pool r d = (http_Error ''Comment is too long'' StatusBadRequest, d)"
proof -
  have l: "255 < length (Comment c)"
    using RuneCount_le_length [of "Comment c"] assms(4) by simp
  have "CreateClient pool rnd r d = (http_Error ''Comment is too long'' StatusBadRequest, d)"
    using assms(1-3) l by (rule CreateClient_long_comment)
  moreover have "UpdateClient pool r d = (http_Error ''Comment is too long'' StatusBadRequest, d)"
    using assms(1-3) l by (rule UpdateClient_long_comment)
  ultimately show ?thesis by (rule conjI)
qed

text \<open>
  C1. The claim is that a successful update answers 200 with the updated record whose
  \<^verbatim>\<open>id\<close> is the id of the path and not an id of the body. \<open>UpdateClient\<close> uses the id of the
  path in the statement only; it encodes the struct decoded from the body as it is and
  never sets its \<open>ID\<close>, whereas \<open>CreateClient\<close> sets the \<open>ID\<close> before it encodes. At
  \<^verbatim>\<open>PUT /clients/c1\<close> with a body whose id is \<^verbatim>\<open>other\<close>, the row \<^verbatim>\<open>c1\<close> is updated and the
  response carries the id \<^verbatim>\<open>other\<close>.
\<close>

theorem UpdateClient_echoes_body_id:
  "UpdateClient table_pool
     \<lparr>Decoded = Some \<lparr>ID = ''other'', Name = ''Ann'', Phone = ''+12345678901'',
                        Email = ''ann@example.com'', Comment = []\<rparr>,
      Params = [(''id'', ''c1'')], URLQuery = []\<rparr>
     \<lparr>store = [\<lparr>ID = ''c1'', Name = ''Old'', Phone = ''+10000000000'',
                 Email = ''old@example.com'', Comment = []\<rparr>], issued = []\<rparr>
   = (\<lparr>StatusCode = StatusOK,
       Written = Json (JObject [(''id'', JString ''other''), (''name'', JString ''Ann''),
                    (''phone'', JString ''+12345678901''), (''email'', JString ''ann@example.com'')])\<rparr>,
      \<lparr>store = [\<lparr>ID = ''c1'', Name = ''Ann'', Phone = ''+12345678901'',
                  Email = ''ann@example.com'', Comment = []\<rparr>],
        issued = [UPDATE_client ''Ann'' ''+12345678901'' ''ann@example.com'' [] ''c1'']\<rparr>)"
  by (simp add: UpdateClient_def Let_def valid_phone_example valid_email_example ByName_def
      db_Exec_def table_pool_def table_Exec_def Encode_Client_def)

text \<open>
  C2. The claim is that a comment of exactly 255 characters is accepted and one of 256
  characters is rejected with 400. The handlers compare \<^verbatim>\<open>len(client.Comment)\<close>, the number
  of bytes, with 255, while the log line of \<open>CreateClient\<close> reports that number as
  characters. A comment of 255 Cyrillic letters (two bytes each in UTF-8) has 255
  characters and 510 bytes, and both handlers answer 400 for it.
\<close>

theorem comment_255_letters_rejected:
  "RuneCountInString (concat (replicate 255 [CHR 0xD1, CHR 0x8F])) = 255
   \<and> CreateClient table_pool (replicate 16 0)
        \<lparr>Decoded = Some \<lparr>ID = [], Name = ''Ann'', Phone = ''+12345678901'',
                           Email = ''ann@example.com'',
                           Comment = concat (replicate 255 [CHR 0xD1, CHR 0x8F])\<rparr>,
         Params = [], URLQuery = []\<rparr>
        \<lparr>store = [], issued = []\<rparr>
      = (http_Error ''Comment is too long'' StatusBadRequest, \<lparr>store = [], issued = []\<rparr>)
   \<and> UpdateClient table_pool
        \<lparr>Decoded = Some \<lparr>ID = [], Name = ''Ann'', Phone = ''+12345678901'',
                           Email = ''ann@example.com'',
                           Comment = concat (replicate 255 [CHR 0xD1, CHR 0x8F])\<rparr>,
         Params = [(''id'', ''c1'')], URLQuery = []\<rparr>
        \<lparr>store = [], issued = []\<rparr>
      = (http_Error ''Comment is too long'' StatusBadRequest, \<lparr>store = [], issued = []\<rparr>)"
proof -
  let ?c = "concat (replicate 255 [CHR 0xD1, CHR 0x8F])"
  have n: "RuneCountInString ?c = 255"
    by (simp only: RuneCount_concat_replicate ya_is_one_rune)
  have l: "(255 :: nat) < length ?c"
    by (simp only: length_concat_replicate) simp
  have c: "CreateClient table_pool (replicate 16 0)
        \<lparr>Decoded = Some \<lparr>ID = [], Name = ''Ann'', Phone = ''+12345678901'',
                           Email = ''ann@example.com'', Comment = ?c\<rparr>,
         Params = [], URLQuery = []\<rparr>
        \<lparr>store = [], issued = []\<rparr>
      = (http_Error ''Comment is too long'' StatusBadRequest, \<lparr>store = [], issued = []\<rparr>)"
    by (rule CreateClient_long_comment [where c = "\<lparr>ID = [], Name = ''Ann'',
          Phone = ''+12345678901'', Email = ''ann@example.com'', Comment = ?c\<rparr>"])
       (simp_all only: request.simps Client.simps valid_phone_example valid_email_example l)
  have u: "UpdateClient table_pool
        \<lparr>Decoded = Some \<lparr>ID = [], Name = ''Ann'', Phone = ''+12345678901'',
                           Email = ''ann@example.com'', Comment = ?c\<rparr>,
         Params = [(''id'', ''c1'')], URLQuery = []\<rparr>
        \<lparr>store = [], issued = []\<rparr>
      = (http_Error ''Comment is too long'' StatusBadRequest, \<lparr>store = [], issued = []\<rparr>)"
    unfolding UpdateClient_def Let_def
    by (simp only: request.simps Client.simps option.simps valid_phone_example valid_email_example
        l not_True_eq_False if_True if_False)
  from n c u show ?thesis by (intro conjI)
qed

text \<open>The theorem of C2 read at the create request: the status is 400.\<close>

theorem comment_255_letters_rejected_witness:
  "StatusCode (fst (CreateClient table_pool (replicate 16 0)
        \<lparr>Decoded = Some \<lparr>ID = [], Name = ''Ann'', Phone = ''+12345678901'',
                           Email = ''ann@example.com'',
                           Comment = concat (replicate 255 [CHR 0xD1, CHR 0x8F])\<rparr>,
         Params = [], URLQuery = []\<rparr>
        \<lparr>store = [], issued = []\<rparr>)) = StatusBadRequest"
  using comment_255_letters_rejected [THEN conjunct2, THEN conjunct1]
  by (simp only: fst_conv StatusCode_http_Error)

section \<open>The texts of generated identifiers\<close>

lemma hextable_nth_hex: "n < 16 \<Longrightarrow> is_hex (hextable ! n)"
  unfolding is_hex_def by (rule nth_mem) (simp add: hextable_def)

lemma hi_nibble_lt: "unat (drop_bit 4 (b :: byte)) < 16"
proof -
  have "unat (drop_bit 4 b) = unat b div 16"
    by (simp add: drop_bit_eq_div unat_div)
  moreover have "unat b < 2 ^ 8"
    using unsigned_less [of b] by simp
  ultimately show ?thesis by simp
qed

lemma lo_nibble_lt: "unat ((b :: byte) AND 0x0f) < 16"
proof -
  have "unat (b AND 15) \<le> unat (15 :: byte)"
    by (rule word_and_le1 [THEN word_le_nat_alt [THEN iffD1]])
  then show ?thesis by simp
qed

lemma version_nibble: "drop_bit 4 ((x AND 0x0f) OR 0x40 :: byte) = 4"
  by (rule bit_word_eqI) (auto simp: bit_simps)

lemma variant_nibble: "drop_bit 4 ((x AND 0x3f) OR 0x80 :: byte) \<in> {8, 9, 10, 11}"
proof -
  have "drop_bit 4 ((x AND 0x3f) OR 0x80 :: byte) = (drop_bit 4 x AND 3) OR 8"
    by (rule bit_word_eqI) (auto simp: bit_simps)
  moreover have "(drop_bit 4 x AND 3 :: byte) \<in> {0, 1, 2, 3}"
  proof -
    have "unat (drop_bit 4 x AND 3) \<le> unat (3 :: byte)"
      by (rule word_and_le1 [THEN word_le_nat_alt [THEN iffD1]])
    then have "unat (drop_bit 4 x AND 3) \<in> {0, 1, 2, 3}" by auto
    then show ?thesis by (auto simp: word_unat_eq_iff)
  qed
  ultimately show ?thesis by auto
qed

lemma hex_Encode_hex: "list_all is_hex (hex_Encode bs)"
  by (induction bs) (simp_all add: hextable_nth_hex hi_nibble_lt lo_nibble_lt)

lemma list16: "length xs = 16 \<Longrightarrow> xs = map ((!) xs) [0..<16]"
  using map_nth [of xs] by simp

lemma list16_explicit:
  "length xs = 16 \<Longrightarrow>
   xs = [xs ! 0, xs ! 1, xs ! 2, xs ! 3, xs ! 4, xs ! 5, xs ! 6, xs ! 7, xs ! 8, xs ! 9,
         xs ! 10, xs ! 11, xs ! 12, xs ! 13, xs ! 14, xs ! 15]"
  using list16 [of xs] by (simp add: upt_rec eval_nat_numeral)

lemma version_char: "hextable ! unat (drop_bit 4 ((x AND 0x0f) OR 0x40 :: byte)) = CHR ''4''"
  by (simp only: version_nibble) (simp add: hextable_def)

lemma variant_char:
  "hextable ! unat (drop_bit 4 ((x AND 0x3f) OR 0x80 :: byte)) \<in> set ''89ab''"
  using variant_nibble [of x] by (auto simp: hextable_def)

lemma hextable_4: "hextable ! 4 = CHR ''4''"
  by (simp add: hextable_def)

lemma hi_hex: "is_hex (hextable ! unat (drop_bit 4 (b :: byte)))"
  by (simp add: hextable_nth_hex hi_nibble_lt)

lemma lo_hex: "is_hex (hextable ! unat ((b :: byte) AND 0x0f))"
  by (rule hextable_nth_hex) (rule lo_nibble_lt)

lemma uuid_String_NewRandom_explicit:
  "uuid_String (NewRandom [b0, b1, b2, b3, b4, b5, b6, b7, b8, b9, b10, b11, b12, b13, b14, b15])
   = hex_Encode [b0, b1, b2, b3] @ ''-'' @ hex_Encode [b4, b5] @ ''-''
     @ hex_Encode [(b6 AND 0x0f) OR 0x40, b7] @ ''-''
     @ hex_Encode [(b8 AND 0x3f) OR 0x80, b9] @ ''-''
     @ hex_Encode [b10, b11, b12, b13, b14, b15]"
  by (simp add: uuid_String_def NewRandom_def Let_def eval_nat_numeral)

lemma is_v4_text_generated:
  assumes "length rnd = 16"
  shows "is_v4_text (uuid_String (NewRandom rnd))"
proof -
  obtain b0 b1 b2 b3 b4 b5 b6 b7 b8 b9 b10 b11 b12 b13 b14 b15 where
    "rnd = [b0, b1, b2, b3, b4, b5, b6, b7, b8, b9, b10, b11, b12, b13, b14, b15]"
    using list16_explicit [OF assms] by blast
  then show ?thesis
    by (simp only: uuid_String_NewRandom_explicit)
       (simp add: is_v4_text_def hi_hex lo_hex version_char hextable_4 variant_char [simplified])
qed

lemma unhex_hex: "is_hex c \<Longrightarrow> unhex c < 16 \<and> hextable ! unhex c = c"
  by (auto simp: is_hex_def hextable_def unhex_def)

lemma unat_xtob:
  assumes "is_hex h" and "is_hex l"
  shows "unat (xtob h l) = unhex h * 16 + unhex l"
proof -
  have "unhex h * 16 + unhex l < 256"
    using unhex_hex [OF assms(1)] unhex_hex [OF assms(2)] by simp
  moreover have "unat (xtob h l) = (unhex h * 16 + unhex l) mod 2 ^ LENGTH(8)"
    unfolding xtob_def by (rule unat_of_nat)
  ultimately show ?thesis by simp
qed

lemma xtob_hi:
  assumes "is_hex h" and "is_hex l"
  shows "hextable ! unat (drop_bit 4 (xtob h l)) = h"
proof -
  have "unat (drop_bit 4 (xtob h l)) = unat (xtob h l) div 16"
    by (simp add: drop_bit_eq_div unat_div)
  also have "\<dots> = unhex h"
    using unhex_hex [OF assms(2)] by (simp add: unat_xtob [OF assms])
  finally show ?thesis using unhex_hex [OF assms(1)] by simp
qed

lemma xtob_lo:
  assumes "is_hex h" and "is_hex l"
  shows "hextable ! unat (xtob h l AND 0x0f) = l"
proof -
  have "(15 :: byte) = mask 4" by (simp add: mask_eq_exp_minus_1)
  then have "xtob h l AND 0x0f = take_bit 4 (xtob h l)"
    by (simp only: take_bit_eq_mask)
  then have "unat (xtob h l AND 0x0f) = unat (xtob h l mod 16)"
    by (simp add: take_bit_eq_mod)
  also have "\<dots> = unat (xtob h l) mod 16"
    by (simp add: unat_mod)
  also have "\<dots> = unhex l"
    using unhex_hex [OF assms(2)] by (simp add: unat_xtob [OF assms])
  finally show ?thesis using unhex_hex [OF assms(2)] by simp
qed

lemma nibble_cases:
  "n < 16 \<Longrightarrow> n \<in> {0, 1, 2, 3, 4, 5, 6, 7, 8, 9, 10, 11, 12, 13, 14, 15 :: nat}"
  by (simp; arith)

lemma version_byte_fixed:
  "n \<in> {0, 1, 2, 3, 4, 5, 6, 7, 8, 9, 10, 11, 12, 13, 14, 15 :: nat} \<Longrightarrow>
   ((of_nat (4 * 16 + n) :: byte) AND 0x0f) OR 0x40 = of_nat (4 * 16 + n)"
  by (elim insertE emptyE; simp)

lemma variant_byte_fixed:
  "m \<in> {8, 9, 10, 11 :: nat} \<Longrightarrow>
   n \<in> {0, 1, 2, 3, 4, 5, 6, 7, 8, 9, 10, 11, 12, 13, 14, 15 :: nat} \<Longrightarrow>
   ((of_nat (m * 16 + n) :: byte) AND 0x3f) OR 0x80 = of_nat (m * 16 + n)"
  by (elim insertE emptyE; simp)

lemma unhex_version: "unhex CHR ''4'' = 4"
  by (simp add: unhex_def hextable_def)

lemma unhex_variant: "v \<in> set ''89ab'' \<Longrightarrow> unhex v \<in> {8, 9, 10, 11}"
  by (auto simp: unhex_def hextable_def)

lemma xtob_version:
  assumes "is_hex l"
  shows "(xtob CHR ''4'' l AND 0x0f) OR 0x40 = xtob CHR ''4'' l"
proof -
  have "unhex l < 16" using unhex_hex [OF assms] by simp
  then have "unhex l \<in> {0, 1, 2, 3, 4, 5, 6, 7, 8, 9, 10, 11, 12, 13, 14, 15}"
    by (rule nibble_cases)
  then show ?thesis
    unfolding xtob_def unhex_version by (rule version_byte_fixed)
qed

lemma xtob_variant:
  assumes "v \<in> set ''89ab''" and "is_hex l"
  shows "(xtob v l AND 0x3f) OR 0x80 = xtob v l"
proof -
  have "unhex l < 16" using unhex_hex [OF assms(2)] by simp
  then have "unhex l \<in> {0, 1, 2, 3, 4, 5, 6, 7, 8, 9, 10, 11, 12, 13, 14, 15}"
    by (rule nibble_cases)
  with unhex_variant [OF assms(1)] show ?thesis
    unfolding xtob_def by (rule variant_byte_fixed)
qed

lemma variant_is_hex: "v \<in> set ''89ab'' \<Longrightarrow> is_hex v"
  by (auto simp: is_hex_def hextable_def)

lemma hex_Encode_xtob:
  "is_hex h \<Longrightarrow> is_hex l \<Longrightarrow> hex_Encode (xtob h l # bs) = h # l # hex_Encode bs"
  by (simp only: hex_Encode.simps xtob_hi xtob_lo)

lemma text_roundtrip_explicit:
  assumes "is_v4_text [c0, c1, c2, c3, c4, c5, c6, c7, c8, c9, c10, c11, c12, c13, c14, c15, c16, c17, c18, c19, c20, c21, c22, c23, c24, c25, c26, c27, c28, c29, c30, c31, c32, c33, c34, c35]"
  shows "uuid_String (NewRandom (text_bytes [c0, c1, c2, c3, c4, c5, c6, c7, c8, c9, c10, c11, c12, c13, c14, c15, c16, c17, c18, c19, c20, c21, c22, c23, c24, c25, c26, c27, c28, c29, c30, c31, c32, c33, c34, c35])) = [c0, c1, c2, c3, c4, c5, c6, c7, c8, c9, c10, c11, c12, c13, c14, c15, c16, c17, c18, c19, c20, c21, c22, c23, c24, c25, c26, c27, c28, c29, c30, c31, c32, c33, c34, c35]"
proof -
  have dash: "c8 = CHR ''-''" "c13 = CHR ''-''" "c18 = CHR ''-''" "c23 = CHR ''-''"
    and ver: "c14 = CHR ''4''" and var: "c19 \<in> set ''89ab''"
    using assms by (simp_all add: is_v4_text_def)
  have hex: "is_hex c0" "is_hex c1" "is_hex c2" "is_hex c3" "is_hex c4" "is_hex c5" "is_hex c6" "is_hex c7" "is_hex c9" "is_hex c10" "is_hex c11" "is_hex c12" "is_hex c14" "is_hex c15" "is_hex c16" "is_hex c17" "is_hex c19" "is_hex c20" "is_hex c21" "is_hex c22" "is_hex c24" "is_hex c25" "is_hex c26" "is_hex c27" "is_hex c28" "is_hex c29" "is_hex c30" "is_hex c31" "is_hex c32" "is_hex c33" "is_hex c34" "is_hex c35"
    using assms variant_is_hex [of c19] by (simp_all add: is_v4_text_def is_hex_def hextable_def)
  have b: "text_bytes [c0, c1, c2, c3, c4, c5, c6, c7, c8, c9, c10, c11, c12, c13, c14, c15, c16, c17, c18, c19, c20, c21, c22, c23, c24, c25, c26, c27, c28, c29, c30, c31, c32, c33, c34, c35] = [xtob c0 c1, xtob c2 c3, xtob c4 c5, xtob c6 c7, xtob c9 c10, xtob c11 c12, xtob c14 c15, xtob c16 c17, xtob c19 c20, xtob c21 c22, xtob c24 c25, xtob c26 c27, xtob c28 c29, xtob c30 c31, xtob c32 c33, xtob c34 c35]"
    by (simp add: text_bytes_def)
  have fix6: "(xtob c14 c15 AND 0x0f) OR 0x40 = xtob c14 c15"
    using hex ver by (simp only: xtob_version)
  have fix8: "(xtob c19 c20 AND 0x3f) OR 0x80 = xtob c19 c20"
    using hex var by (simp only: xtob_variant)
  show ?thesis
    unfolding b uuid_String_NewRandom_explicit fix6 fix8
    using hex by (simp only: hex_Encode_xtob hex_Encode.simps(1) dash append.simps)
qed

lemma list36_explicit:
  "length s = 36 \<Longrightarrow> s = [s ! 0, s ! 1, s ! 2, s ! 3, s ! 4, s ! 5, s ! 6, s ! 7, s ! 8, s ! 9, s ! 10, s ! 11, s ! 12, s ! 13, s ! 14, s ! 15, s ! 16, s ! 17, s ! 18, s ! 19, s ! 20, s ! 21, s ! 22, s ! 23, s ! 24, s ! 25, s ! 26, s ! 27, s ! 28, s ! 29, s ! 30, s ! 31, s ! 32, s ! 33, s ! 34, s ! 35]"
  using map_nth [of s] by (simp add: upt_rec eval_nat_numeral)

lemma is_v4_text_roundtrip:
  assumes "is_v4_text s"
  shows "length (text_bytes s) = 16 \<and> uuid_String (NewRandom (text_bytes s)) = s"
proof -
  have "length s = 36" using assms by (simp add: is_v4_text_def)
  then have e: "s = [s ! 0, s ! 1, s ! 2, s ! 3, s ! 4, s ! 5, s ! 6, s ! 7, s ! 8, s ! 9, s ! 10, s ! 11, s ! 12, s ! 13, s ! 14, s ! 15, s ! 16, s ! 17, s ! 18, s ! 19, s ! 20, s ! 21, s ! 22, s ! 23, s ! 24, s ! 25, s ! 26, s ! 27, s ! 28, s ! 29, s ! 30, s ! 31, s ! 32, s ! 33, s ! 34, s ! 35]"
    by (rule list36_explicit)
  have "is_v4_text [s ! 0, s ! 1, s ! 2, s ! 3, s ! 4, s ! 5, s ! 6, s ! 7, s ! 8, s ! 9, s ! 10, s ! 11, s ! 12, s ! 13, s ! 14, s ! 15, s ! 16, s ! 17, s ! 18, s ! 19, s ! 20, s ! 21, s ! 22, s ! 23, s ! 24, s ! 25, s ! 26, s ! 27, s ! 28, s ! 29, s ! 30, s ! 31, s ! 32, s ! 33, s ! 34, s ! 35]"
    by (subst e [symmetric]) (rule assms)
  then have "uuid_String (NewRandom (text_bytes [s ! 0, s ! 1, s ! 2, s ! 3, s ! 4, s ! 5, s ! 6, s ! 7, s ! 8, s ! 9, s ! 10, s ! 11, s ! 12, s ! 13, s ! 14, s ! 15, s ! 16, s ! 17, s ! 18, s ! 19, s ! 20, s ! 21, s ! 22, s ! 23, s ! 24, s ! 25, s ! 26, s ! 27, s ! 28, s ! 29, s ! 30, s ! 31, s ! 32, s ! 33, s ! 34, s ! 35])) = [s ! 0, s ! 1, s ! 2, s ! 3, s ! 4, s ! 5, s ! 6, s ! 7, s ! 8, s ! 9, s ! 10, s ! 11, s ! 12, s ! 13, s ! 14, s ! 15, s ! 16, s ! 17, s ! 18, s ! 19, s ! 20, s ! 21, s ! 22, s ! 23, s ! 24, s ! 25, s ! 26, s ! 27, s ! 28, s ! 29, s ! 30, s ! 31, s ! 32, s ! 33, s ! 34, s ! 35]"
    by (rule text_roundtrip_explicit)
  then have "uuid_String (NewRandom (text_bytes s)) = s"
    by (simp only: e [symmetric])
  then show ?thesis by (simp add: text_bytes_def)
qed

lemma generated_differs_from_other_text:
  "length rnd = 16 \<Longrightarrow> \<not> is_v4_text s \<Longrightarrow> uuid_String (NewRandom rnd) \<noteq> s"
  using is_v4_text_generated [of rnd] by auto

lemma v4_text_is_generated:
  "is_v4_text s \<Longrightarrow> \<exists>rnd. length rnd = 16 \<and> uuid_String (NewRandom rnd) = s"
  using is_v4_text_roundtrip [of s] by blast

lemma other_version_not_v4: "\<not> is_v4_text ''123e4567-e89b-12d3-a456-426614174000''"
  by (simp add: is_v4_text_def)

lemma zeros_text_is_v4: "is_v4_text ''00000000-0000-4000-8000-000000000000''"
  by (simp add: is_v4_text_def is_hex_def hextable_def)

text \<open>
  C3, as amended. For every create request answered with 201, the \<^verbatim>\<open>id\<close> of the response
  and of the inserted row is the identifier generated for the request: the text of a
  version-4 UUID made from the 16 random bytes, never empty and 36 characters long. It
  replaces the id of the body, whatever that was: the same request with any other id in
  the body has the same outcome. It is distinct from every submitted id that is not the
  lower-case text of a version-4 UUID, whatever the random bytes are. A submitted id
  that is such a text is the identifier generated from some 16 random bytes.
\<close>

theorem CreateClient_generated_id:
  assumes "CreateClient pool rnd r d = (resp, d')" and "StatusCode resp = StatusCreated"
  shows "\<exists>c. Decoded r = Some c
           \<and> Written resp = Json (Encode_Client (c\<lparr>ID := uuid_String (NewRandom rnd)\<rparr>))
           \<and> json_field ''id'' (Encode_Client (c\<lparr>ID := uuid_String (NewRandom rnd)\<rparr>))
               = Some (JString (uuid_String (NewRandom rnd)))
           \<and> issued d' = issued d @ [INSERT_client (uuid_String (NewRandom rnd)) (Name c)
                                      (Phone c) (Email c) (Comment c)]
           \<and> uuid_String (NewRandom rnd) \<noteq> []
           \<and> (length rnd = 16 \<longrightarrow> length (uuid_String (NewRandom rnd)) = 36)
           \<and> (\<forall>x. CreateClient pool rnd (r\<lparr>Decoded := Some (c\<lparr>ID := x\<rparr>)\<rparr>) d = (resp, d'))
           \<and> (length rnd = 16 \<longrightarrow> is_v4_text (uuid_String (NewRandom rnd)))
           \<and> (length rnd = 16 \<and> \<not> is_v4_text (ID c) \<longrightarrow> uuid_String (NewRandom rnd) \<noteq> ID c)
           \<and> (is_v4_text (ID c) \<longrightarrow>
                (\<exists>rnd'. length rnd' = 16 \<and> uuid_String (NewRandom rnd') = ID c))"
proof -
  let ?g = "uuid_String (NewRandom rnd)"
  from CreateClient_created [OF assms] obtain c where c: "Decoded r = Some c"
    "Written resp = Json (Encode_Client (c\<lparr>ID := ?g\<rparr>))"
    "issued d' = issued d @ [INSERT_client ?g (Name c) (Phone c) (Email c) (Comment c)]"
    by (elim exE conjE)
  have f: "json_field ''id'' (Encode_Client (c\<lparr>ID := ?g\<rparr>)) = Some (JString ?g)"
    by (simp add: json_field_def Encode_Client_def)
  have len: "length rnd = 16 \<longrightarrow> length ?g = 36"
    by (simp add: length_uuid_String length_NewRandom)
  have ind: "\<forall>x. CreateClient pool rnd (r\<lparr>Decoded := Some (c\<lparr>ID := x\<rparr>)\<rparr>) d = (resp, d')"
    using CreateClient_ignores_body_id [OF c(1), of pool rnd _ d] assms(1) by simp
  have shape: "length rnd = 16 \<longrightarrow> is_v4_text ?g"
    by (simp add: is_v4_text_generated)
  have dist: "length rnd = 16 \<and> \<not> is_v4_text (ID c) \<longrightarrow> ?g \<noteq> ID c"
    using generated_differs_from_other_text [of rnd "ID c"] by blast
  have coll: "is_v4_text (ID c) \<longrightarrow>
      (\<exists>rnd'. length rnd' = 16 \<and> uuid_String (NewRandom rnd') = ID c)"
    using v4_text_is_generated [of "ID c"] by blast
  from c f len ind shape dist coll uuid_String_nonempty [of "NewRandom rnd"]
  have "Decoded r = Some c
           \<and> Written resp = Json (Encode_Client (c\<lparr>ID := ?g\<rparr>))
           \<and> json_field ''id'' (Encode_Client (c\<lparr>ID := ?g\<rparr>)) = Some (JString ?g)
           \<and> issued d' = issued d @ [INSERT_client ?g (Name c) (Phone c) (Email c) (Comment c)]
           \<and> ?g \<noteq> []
           \<and> (length rnd = 16 \<longrightarrow> length ?g = 36)
           \<and> (\<forall>x. CreateClient pool rnd (r\<lparr>Decoded := Some (c\<lparr>ID := x\<rparr>)\<rparr>) d = (resp, d'))
           \<and> (length rnd = 16 \<longrightarrow> is_v4_text ?g)
           \<and> (length rnd = 16 \<and> \<not> is_v4_text (ID c) \<longrightarrow> ?g \<noteq> ID c)
           \<and> (is_v4_text (ID c) \<longrightarrow>
                (\<exists>rnd'. length rnd' = 16 \<and> uuid_String (NewRandom rnd') = ID c))"
    by (intro conjI)
  then show ?thesis by (rule exI)
qed

text \<open>The theorem of C3 with random bytes all zero, at a request that submits the text of
  a version-1 UUID and at one that submits the text of a version-4 UUID.\<close>

theorem CreateClient_generated_id_witness:
  "json_field ''id'' (Encode_Client
      (\<lparr>ID = ''123e4567-e89b-12d3-a456-426614174000'', Name = ''Ann'', Phone = ''+12345678901'',
        Email = ''ann@example.com'', Comment = []\<rparr>\<lparr>ID := uuid_String (NewRandom (replicate 16 0))\<rparr>))
     = Some (JString ''00000000-0000-4000-8000-000000000000'')
   \<and> uuid_String (NewRandom (replicate 16 0)) \<noteq> ''123e4567-e89b-12d3-a456-426614174000''
   \<and> (\<exists>rnd'. length rnd' = 16
         \<and> uuid_String (NewRandom rnd') = ''00000000-0000-4000-8000-000000000000'')"
proof -
  let ?c = "\<lparr>ID = ''123e4567-e89b-12d3-a456-426614174000'', Name = ''Ann'',
        Phone = ''+12345678901'', Email = ''ann@example.com'', Comment = []\<rparr>"
  let ?r = "\<lparr>Decoded = Some ?c, Params = [], URLQuery = []\<rparr>"
  let ?z = "\<lparr>ID = ''00000000-0000-4000-8000-000000000000'', Name = ''Ann'',
        Phone = ''+12345678901'', Email = ''ann@example.com'', Comment = []\<rparr>"
  let ?rz = "\<lparr>Decoded = Some ?z, Params = [], URLQuery = []\<rparr>"
  have st: "StatusCode \<lparr>StatusCode = StatusCreated,
       Written = Json (JObject [(''id'', JString ''00000000-0000-4000-8000-000000000000''),
                    (''name'', JString ''Ann''), (''phone'', JString ''+12345678901''),
                    (''email'', JString ''ann@example.com'')])\<rparr> = StatusCreated"
    by simp
  note run = CreateClient_example [of "''123e4567-e89b-12d3-a456-426614174000''"]
  from CreateClient_generated_id [OF run st] obtain c where
    c: "Decoded ?r = Some c"
    and f: "json_field ''id'' (Encode_Client (c\<lparr>ID := uuid_String (NewRandom (replicate 16 0))\<rparr>))
               = Some (JString (uuid_String (NewRandom (replicate 16 0))))"
    and dist: "length (replicate 16 (0::byte)) = 16 \<and> \<not> is_v4_text (ID c)
               \<longrightarrow> uuid_String (NewRandom (replicate 16 0)) \<noteq> ID c"
    by (elim exE conjE)
  from c have c': "c = ?c" by simp
  have a: "json_field ''id'' (Encode_Client (?c\<lparr>ID := uuid_String (NewRandom (replicate 16 0))\<rparr>))
     = Some (JString ''00000000-0000-4000-8000-000000000000'')"
    using f c' by (simp add: uuid_of_zeros)
  have b: "uuid_String (NewRandom (replicate 16 0)) \<noteq> ''123e4567-e89b-12d3-a456-426614174000''"
    using dist c' other_version_not_v4 by simp
  note runz = CreateClient_example [of "''00000000-0000-4000-8000-000000000000''"]
  from CreateClient_generated_id [OF runz st] obtain cz where
    cz: "Decoded ?rz = Some cz"
    and coll: "is_v4_text (ID cz) \<longrightarrow>
                (\<exists>rnd'. length rnd' = 16 \<and> uuid_String (NewRandom rnd') = ID cz)"
    by (elim exE conjE)
  from cz have "ID cz = ''00000000-0000-4000-8000-000000000000''" by auto
  with coll zeros_text_is_v4
  have e: "\<exists>rnd'. length rnd' = 16
         \<and> uuid_String (NewRandom rnd') = ''00000000-0000-4000-8000-000000000000''"
    by simp
  from a b e show ?thesis by (intro conjI)
qed

text \<open>
  C3 as first stated fails where the body submits the text of the UUID that is then
  generated: the request is answered with 201 and the id of the response is the
  submitted one.
\<close>

theorem CreateClient_same_id_counterexample:
  "StatusCode (fst (CreateClient table_pool (replicate 16 0)
     \<lparr>Decoded = Some \<lparr>ID = ''00000000-0000-4000-8000-000000000000'', Name = ''Ann'',
                        Phone = ''+12345678901'', Email = ''ann@example.com'', Comment = []\<rparr>,
      Params = [], URLQuery = []\<rparr>
     \<lparr>store = [], issued = []\<rparr>)) = StatusCreated
   \<and> (case Written (fst (CreateClient table_pool (replicate 16 0)
     \<lparr>Decoded = Some \<lparr>ID = ''00000000-0000-4000-8000-000000000000'', Name = ''Ann'',
                        Phone = ''+12345678901'', Email = ''ann@example.com'', Comment = []\<rparr>,
      Params = [], URLQuery = []\<rparr>
     \<lparr>store = [], issued = []\<rparr>)) of Json j \<Rightarrow> json_field ''id'' j | Text t \<Rightarrow> None)
     = Some (JString ''00000000-0000-4000-8000-000000000000'')"
  by (simp add: CreateClient_example json_field_def)

end
